theory Spec2Isabelle
  imports Complex_Main "HOL-Library.Multiset" "HOL-Library.Product_Lexorder"
begin

section \<open>Mary9Optimizer: budget allocation, scheduling, knowledge exchange, final ranking\<close>

text \<open>
  A shallow embedding of \<^verbatim>\<open>mary9/optimizer.py\<close>. The class \<^verbatim>\<open>Mary9Optimizer\<close> keeps
  its state in attributes; every method is modelled as a function from the attributes it
  reads to the attributes it writes. Exceptions are values of the type \<open>error\<close>.
\<close>

datatype error =
    ValueError
  | ZeroDivisionError
  | OverflowError
  | IndexError
  | UnboundLocalError
  | UnknownThresholding

subsection \<open>Fitness values\<close>

text \<open>
  A fitness is a double: a number or NaN. Comparisons of doubles are exact, so a double is
  modelled by the real number it denotes; infinities are outside the model. \<open>fless\<close> is
  the comparison \<^verbatim>\<open><\<close> of floats: it is false as soon as one side is NaN.
\<close>

datatype fval = NaN | Fin real

fun fless :: "fval \<Rightarrow> fval \<Rightarrow> bool" where
  "fless (Fin a) (Fin b) = (a < b)"
| "fless _ _ = False"

text \<open>\<^verbatim>\<open>np.fmin\<close>: the smaller of two values, a NaN being ignored when the other is a number.\<close>

fun fmin :: "fval \<Rightarrow> fval \<Rightarrow> fval" where
  "fmin NaN b = b"
| "fmin a NaN = a"
| "fmin (Fin a) (Fin b) = Fin (min a b)"

text \<open>
  \<^verbatim>\<open>np.nanmin\<close> reduces with \<^verbatim>\<open>fmin\<close>; on an empty array it raises ValueError, on
  an array of NaNs only it returns NaN (with a warning).
\<close>

definition nanmin :: "fval list \<Rightarrow> error + fval" where
  "nanmin fs = (case fs of [] \<Rightarrow> Inl ValueError | f # fs' \<Rightarrow> Inr (foldl fmin f fs'))"

fun finite_values :: "fval list \<Rightarrow> real list" where
  "finite_values [] = []"
| "finite_values (NaN # fs) = finite_values fs"
| "finite_values (Fin a # fs) = a # finite_values fs"

text \<open>
  \<^verbatim>\<open>np.nanpercentile(a, q=5)\<close>, method \<^verbatim>\<open>linear\<close>: the NaNs are removed, the rest is
  sorted, and the value at the virtual index \<open>0.05 * (n - 1)\<close> is interpolated linearly
  between its two neighbours. An empty or all-NaN array gives NaN (with a warning).
  The interpolation is taken in exact arithmetic.
\<close>

definition nanpercentile5 :: "fval list \<Rightarrow> fval" where
  "nanpercentile5 fs =
     (let v = sort (finite_values fs); n = length v in
      if n = 0 then NaN
      else
        let pos = (5 / 100) * real (n - 1);
            lo = nat \<lfloor>pos\<rfloor>;
            hi = min (lo + 1) (n - 1);
            g = pos - real lo
        in Fin (v ! lo + (v ! hi - v ! lo) * g))"

subsection \<open>Individuals, populations and the object store\<close>

text \<open>
  Modelled from the spec: the classes \<^verbatim>\<open>Individual\<close> and \<^verbatim>\<open>Population\<close> of
  \<^verbatim>\<open>mary9/population.py\<close> are not part of the sources at hand. Following the data
  model of the specification, an Individual carries a parameter vector, a fitness and a
  diversity score, and a Population is an index-addressable list of Individuals whose
  \<^verbatim>\<open>popsize\<close> is the length of that list and whose iteration visits the list in order.

  Individuals are mutable Python objects, and two populations may refer to the same one.
  The store is a list of objects; the address of an object is its index in the store, and
  allocation appends. A population is the list of the addresses of its individuals.
\<close>

record individual =
  x_vec :: "real list"
  fitness :: fval
  diversity :: real

type_synonym addr = nat
type_synonym store = "individual list"
type_synonym population = "addr list"

definition individuals :: "store \<Rightarrow> population \<Rightarrow> individual list" where
  "individuals h p = map (\<lambda>a. h ! a) p"

definition get_fitness :: "store \<Rightarrow> population \<Rightarrow> fval list" where
  "get_fitness h p = map fitness (individuals h p)"

text \<open>
  \<^verbatim>\<open>np.linalg.norm(a - b)\<close> for two vectors of the same length, in exact arithmetic.
\<close>

definition vec_sub :: "real list \<Rightarrow> real list \<Rightarrow> real list" where
  "vec_sub a b = map2 (-) a b"

definition linalg_norm :: "real list \<Rightarrow> real" where
  "linalg_norm v = sqrt (sum_list (map (\<lambda>c. c\<^sup>2) v))"

subsection \<open>The sampler\<close>

text \<open>
  Modelled from the spec: \<^verbatim>\<open>mary9/sampler.py\<close> is not part of the sources at hand.
  Its two static methods are parameters of the model, with the interface of the
  specification: \<^verbatim>\<open>select_subsample(proposal, n_samples, strategy, ban_distance)\<close>
  returns the selected points and the list \<^verbatim>\<open>selection_info['chosen']\<close> of their
  indices in the proposal; \<^verbatim>\<open>select_weakest_sample(proposal, n_samples)\<close> returns the
  indices of the weakest members. Both only read the population.
\<close>

type_synonym strategy = "real \<times> real \<times> real \<times> real"
type_synonym subsampler = "individual list \<Rightarrow> int \<Rightarrow> strategy \<Rightarrow> real \<Rightarrow> real list list \<times> nat list"
type_synonym weakest_sampler = "individual list \<Rightarrow> int \<Rightarrow> nat list"

subsection \<open>Knowledge exchange\<close>

text \<open>
  The state that the loop of \<^verbatim>\<open>_share_knowledge\<close> changes: the store (a replacement
  allocates the deep copy), the list \<^verbatim>\<open>update_to.individuals\<close>, and the counter
  \<^verbatim>\<open>points_exchanged\<close>. The source population \<^verbatim>\<open>update_from\<close> is a different
  Population object at every call site, so its list of individuals is not written to.
\<close>

record xstate =
  heap :: store
  to_individuals :: population
  points_exchanged :: nat

text \<open>
  The threshold of one candidate (lines 531 to 538). \<^verbatim>\<open>fittest_old\<close> is a local
  variable that is bound only when the gate was passed: \<open>None\<close> stands for unbound.
\<close>

definition threshold_of :: "string \<Rightarrow> fval option \<Rightarrow> fval \<Rightarrow> individual \<Rightarrow> error + fval" where
  "threshold_of update_threshold fittest_old good_value_old individual_old =
     (if update_threshold = ''only best'' then
        (case fittest_old of None \<Rightarrow> Inl UnboundLocalError | Some f \<Rightarrow> Inr f)
      else if update_threshold = ''always if better'' then Inr (fitness individual_old)
      else if update_threshold = ''in between'' then Inr good_value_old
      else Inl UnknownThresholding)"

text \<open>The duplicate guard (lines 542 to 546): a scan over the destination population.\<close>

definition point_already_in_population :: "store \<Rightarrow> population \<Rightarrow> individual \<Rightarrow> bool" where
  "point_already_in_population h to_inds individual_new =
     list_ex (\<lambda>a. linalg_norm (vec_sub (x_vec individual_new) (x_vec (h ! a))) < 1 / 10000) to_inds"

text \<open>
  The body of the loop for the index \<open>i_vector\<close> (lines 523 to 550). Reading a list out
  of its range raises IndexError; the indices delivered by the sampler are natural numbers.
  \<^verbatim>\<open>deepcopy\<close> allocates a new object with the same contents.
\<close>

definition exchange_step ::
  "population \<Rightarrow> nat list \<Rightarrow> nat list \<Rightarrow> string \<Rightarrow> fval option \<Rightarrow> fval \<Rightarrow> xstate \<Rightarrow> nat
     \<Rightarrow> error + xstate" where
  "exchange_step update_from chosen weakest_inds update_threshold fittest_old good_value_old s i_vector =
     (if length chosen \<le> i_vector then Inl IndexError
      else let id_new = chosen ! i_vector in
      if length update_from \<le> id_new then Inl IndexError
      else let individual_new = heap s ! (update_from ! id_new) in
      if length weakest_inds \<le> i_vector then Inl IndexError
      else let id_old = weakest_inds ! i_vector in
      if length (to_individuals s) \<le> id_old then Inl IndexError
      else let individual_old = heap s ! (to_individuals s ! id_old) in
      case threshold_of update_threshold fittest_old good_value_old individual_old of
        Inl e \<Rightarrow> Inl e
      | Inr threshold \<Rightarrow>
          if fless (fitness individual_new) threshold then
            if \<not> point_already_in_population (heap s) (to_individuals s) individual_new then
              Inr \<lparr>heap = heap s @ [individual_new],
                   to_individuals = (to_individuals s)[id_old := length (heap s)],
                   points_exchanged = points_exchanged s + 1\<rparr>
            else Inr s
          else Inr s)"

text \<open>
  The loop over \<^verbatim>\<open>enumerate(suggested_points)\<close>. An exception leaves the loop; what was
  replaced before stays replaced, so the state is returned with the exception.
\<close>

fun exchange_loop ::
  "population \<Rightarrow> nat list \<Rightarrow> nat list \<Rightarrow> string \<Rightarrow> fval option \<Rightarrow> fval \<Rightarrow> nat list \<Rightarrow> xstate
     \<Rightarrow> error option \<times> xstate" where
  "exchange_loop update_from chosen weakest_inds update_threshold fittest_old good_value_old [] s =
     (None, s)"
| "exchange_loop update_from chosen weakest_inds update_threshold fittest_old good_value_old (i # is) s =
     (case exchange_step update_from chosen weakest_inds update_threshold fittest_old good_value_old s i of
        Inl e \<Rightarrow> (Some e, s)
      | Inr s' \<Rightarrow>
          exchange_loop update_from chosen weakest_inds update_threshold fittest_old good_value_old is s')"

text \<open>
  What a call of \<^verbatim>\<open>_share_knowledge\<close> leaves behind: the exception it raised or the
  value it returned, the lines it wrote to the debug log, the store and the destination
  population. The method has no \<^verbatim>\<open>return\<close> with a value: it returns \<^verbatim>\<open>None\<close>.
\<close>

datatype pyval = PyNone | PyInt int

datatype log_line =
    NoneExchanged int
  | Exchanged nat int

record xresult =
  outcome :: "error + pyval"
  logged :: "log_line list"
  heap_after :: store
  to_after :: population

text \<open>
  The gate of lines 491 to 498. It yields the exception of \<^verbatim>\<open>np.nanmin\<close>, or \<open>None\<close>
  when the gate is disabled and \<^verbatim>\<open>fittest_old\<close> stays unbound, or the value bound to
  \<^verbatim>\<open>fittest_old\<close> together with the outcome of the test
  \<^verbatim>\<open>not fittest_new < fittest_old\<close>.
\<close>

definition gate :: "store \<Rightarrow> population \<Rightarrow> population \<Rightarrow> bool \<Rightarrow> error + (fval \<times> bool) option" where
  "gate h update_from update_to only_if_new_best_point =
     (if only_if_new_best_point then
        (case nanmin (get_fitness h update_to) of
           Inl e \<Rightarrow> Inl e
         | Inr fittest_old \<Rightarrow>
             (case nanmin (get_fitness h update_from) of
                Inl e \<Rightarrow> Inl e
              | Inr fittest_new \<Rightarrow> Inr (Some (fittest_old, \<not> fless fittest_new fittest_old))))
      else Inr None)"

definition share_knowledge ::
  "subsampler \<Rightarrow> weakest_sampler \<Rightarrow> store \<Rightarrow> population \<Rightarrow> population \<Rightarrow> int \<Rightarrow> strategy \<Rightarrow> string
     \<Rightarrow> bool \<Rightarrow> xresult" where
  "share_knowledge select_subsample select_weakest_sample h update_from update_to update_popsize
       update_strategy update_threshold only_if_new_best_point =
     (case gate h update_from update_to only_if_new_best_point of
        Inl e \<Rightarrow> \<lparr>outcome = Inl e, logged = [], heap_after = h, to_after = update_to\<rparr>
      | Inr (Some (fittest_old, True)) \<Rightarrow>
          \<lparr>outcome = Inr PyNone, logged = [NoneExchanged update_popsize],
           heap_after = h, to_after = update_to\<rparr>
      | Inr g \<Rightarrow>
          if length update_from = 0 then
            \<lparr>outcome = Inl ZeroDivisionError, logged = [], heap_after = h, to_after = update_to\<rparr>
          else
            let (suggested_points, chosen) =
                  select_subsample (individuals h update_from) update_popsize update_strategy
                    ((25 / 100) / real (length update_from));
                weakest_inds = select_weakest_sample (individuals h update_to) update_popsize;
                good_value_old = nanpercentile5 (get_fitness h update_to);
                (exc, s) = exchange_loop update_from chosen weakest_inds update_threshold
                    (map_option fst g) good_value_old [0..<length suggested_points]
                    \<lparr>heap = h, to_individuals = update_to, points_exchanged = 0\<rparr>
            in case exc of
                 Some e \<Rightarrow> \<lparr>outcome = Inl e, logged = [], heap_after = heap s,
                            to_after = to_individuals s\<rparr>
               | None \<Rightarrow> \<lparr>outcome = Inr PyNone,
                          logged = [Exchanged (points_exchanged s) update_popsize],
                          heap_after = heap s, to_after = to_individuals s\<rparr>)"

subsection \<open>A concrete exchange\<close>

text \<open>
  The populations of the examples below. The store holds five individuals with
  one parameter each; the destination population is made of the first three (fitness 10,
  20 and 30), the source population of the last two (fitness 1 and 5). The sampler of the
  examples selects the first \<^verbatim>\<open>n_samples\<close> individuals of the source and, as the weakest,
  the last \<^verbatim>\<open>n_samples\<close> individuals of the destination, the last one first.
  \<open>ex_call\<close> is an exchange of two points under \<^verbatim>\<open>only best\<close> with the gate enabled.
\<close>

definition ex_store :: store where
  "ex_store = [\<lparr>x_vec = [0], fitness = Fin 10, diversity = 0\<rparr>,
               \<lparr>x_vec = [1], fitness = Fin 20, diversity = 0\<rparr>,
               \<lparr>x_vec = [2], fitness = Fin 30, diversity = 0\<rparr>,
               \<lparr>x_vec = [5], fitness = Fin 1, diversity = 0\<rparr>,
               \<lparr>x_vec = [6], fitness = Fin 5, diversity = 0\<rparr>]"

definition ex_select_subsample :: subsampler where
  "ex_select_subsample proposal n_samples strat ban_distance =
     (map x_vec (take (nat n_samples) proposal), [0..<min (nat n_samples) (length proposal)])"

definition ex_select_weakest_sample :: weakest_sampler where
  "ex_select_weakest_sample proposal n_samples =
     take (nat n_samples) (rev [0..<length proposal])"

definition ex_call :: xresult where
  "ex_call = share_knowledge ex_select_subsample ex_select_weakest_sample ex_store [3, 4] [0, 1, 2] 2
     (6/10, 0, 0, 4/10) ''only best'' True"

subsection \<open>Double-precision arithmetic\<close>

text \<open>
  The allocator and the scheduler compute integers through floating-point expressions
  such as \<^verbatim>\<open>int(np.round(.4 * total_budget))\<close> and \<^verbatim>\<open>int(iter)\<close> for the elements of
  a \<^verbatim>\<open>np.linspace\<close>, and the integer can depend on the rounding of the double. A finite
  double is modelled by the real number it denotes, and every floating-point operation is
  the exact operation followed by \<open>fl\<close>, the rounding to the nearest number with a
  mantissa of 53 bits, ties to the even mantissa (IEEE 754 binary64, round-to-nearest-even).
  The exponent range is not bounded: overflow to infinity and gradual underflow are outside
  the model, which is exact for magnitudes between \<open>2 powi -1022\<close> and \<open>2 powi 1024\<close>.

  \<open>ilog2 n\<close> is the position of the leading bit of \<open>n \<ge> 1\<close>, and \<open>binade x\<close> is the
  exponent \<open>e\<close> with \<open>2 powi e \<le> \<bar>x\<bar> < 2 powi (e + 1)\<close> for \<open>x \<noteq> 0\<close>.
\<close>

function ilog2 :: "int \<Rightarrow> int" where
  "ilog2 n = (if n < 2 then 0 else ilog2 (n div 2) + 1)"
  by pat_completeness auto
termination
  by (relation "measure nat") auto

declare ilog2.simps [simp del]

definition binade :: "real \<Rightarrow> int" where
  "binade x =
     (if 1 \<le> \<bar>x\<bar> then ilog2 \<lfloor>\<bar>x\<bar>\<rfloor>
      else - (ilog2 (\<lceil>1 / \<bar>x\<bar>\<rceil> - 1) + 1))"

text \<open>
  Rounding to the nearest integer, ties to the even one: the rounding of the mantissa, and
  also \<^verbatim>\<open>np.round\<close>.
\<close>

definition round_half_even :: "real \<Rightarrow> int" where
  "round_half_even x =
     (let f = \<lfloor>x\<rfloor>; d = x - of_int f in
      if d < 1 / 2 then f else if 1 / 2 < d then f + 1 else if even f then f else f + 1)"

definition fl :: "real \<Rightarrow> real" where
  "fl x = (if x = 0 then 0
           else let u = 2 powi (binade x - 52) in of_int (round_half_even (x / u)) * u)"

text \<open>
  The same rounding with the power of two computed on the integers once; this is the
  equation by which \<open>fl\<close> is evaluated (lemma \<open>fl_code\<close>).
\<close>

definition fl_up :: "real \<Rightarrow> real \<Rightarrow> real" where
  "fl_up x p = of_int (round_half_even (x / p)) * p"

definition fl_down :: "real \<Rightarrow> real \<Rightarrow> real" where
  "fl_down x p = of_int (round_half_even (x * p)) / p"

definition fl_at :: "real \<Rightarrow> int \<Rightarrow> real" where
  "fl_at x e = (if 0 \<le> e then fl_up x (of_int (2 ^ nat e)) else fl_down x (of_int (2 ^ nat (- e))))"

text \<open>
  The conversion of a Python integer to a double, \<^verbatim>\<open>int(x)\<close> of a double (truncation
  towards zero), and \<^verbatim>\<open>np.round\<close> (the result is an integral double, given as the integer).
\<close>

definition float_of_int :: "int \<Rightarrow> real" where
  "float_of_int n = fl (of_int n)"

definition int_of_float :: "real \<Rightarrow> int" where
  "int_of_float x = (if 0 \<le> x then \<lfloor>x\<rfloor> else \<lceil>x\<rceil>)"

definition np_round :: "real \<Rightarrow> int" where
  "np_round x = round_half_even x"

text \<open>
  \<^verbatim>\<open>np.linspace(0, stop, num, endpoint)\<close> for \<open>num \<ge> 0\<close>: numpy computes
  \<^verbatim>\<open>step = (stop - 0) / div\<close> with \<^verbatim>\<open>div = num - 1\<close> or \<^verbatim>\<open>num\<close>, then
  \<^verbatim>\<open>arange(0, num) * step + 0\<close>, and with \<^verbatim>\<open>endpoint\<close> it overwrites the last element
  by \<^verbatim>\<open>stop\<close>. (For \<^verbatim>\<open>div = 0\<close> the only element is 0.)
\<close>

definition linspace0 :: "int \<Rightarrow> int \<Rightarrow> bool \<Rightarrow> real list" where
  "linspace0 stop num endpoint =
     (let n_div = (if endpoint then num - 1 else num);
          step = fl (float_of_int stop / float_of_int n_div);
          y = map (\<lambda>i. if n_div = 0 then 0 else fl (float_of_int i * step)) [0..num - 1]
      in if endpoint \<and> 1 < num then y[nat (num - 1) := float_of_int stop] else y)"

subsection \<open>The budget allocator\<close>

text \<open>
  What \<^verbatim>\<open>_distribute_budget\<close> stores in \<^verbatim>\<open>self.budgets\<close>, \<^verbatim>\<open>self.popsizes\<close>,
  \<^verbatim>\<open>self.n_iterations\<close>, \<^verbatim>\<open>self.n_refinements\<close> and \<^verbatim>\<open>self.n_local_searches\<close>.
\<close>

record budget_plan =
  budgets_total :: int
  budgets_global :: int
  budgets_local :: int
  budgets_refinement :: int
  budgets_CMAES :: int
  budgets_DiffEvol :: int
  budgets_sampling_CMAES :: int
  budgets_sampling_DiffEvol :: int
  n_refinements :: int
  popsizes_CMAES :: int
  popsizes_DiffEvol :: int
  popsizes_initial_refinements :: int
  popsizes_runtime_refinements :: "int list"
  n_iterations_CMAES :: int
  n_iterations_DiffEvol :: int
  n_iterations_global :: int
  n_local_searches :: int

text \<open>
  Lines 118 to 132. The lower bound of the population size is a double
  (\<^verbatim>\<open>np.max\<close> of a list that holds a double). Dividing by the double zero gives an
  infinity or NaN, which the comparison with 50 and then \<^verbatim>\<open>int\<close> turn into the ValueError
  of line 129 (negative budget), a ValueError of \<^verbatim>\<open>int\<close> (budget zero) or an OverflowError.
  In the second branch the population size is set to \<^verbatim>\<open>lb_iterations_CMAES\<close>, as line 131
  has it.
\<close>

definition lb_popsize_CMAES_of :: "int \<Rightarrow> int \<Rightarrow> real" where
  "lb_popsize_CMAES_of n_equivalent_multi_starts n_parameters =
     max (float_of_int (2 * n_equivalent_multi_starts))
         (of_int \<lceil>fl (fl (15 / 10) * float_of_int n_parameters)\<rceil>)"

definition resolve_CMAES :: "int \<Rightarrow> int \<Rightarrow> int \<Rightarrow> error + int \<times> int" where
  "resolve_CMAES budget n_equivalent_multi_starts n_parameters =
     (let lb_popsize_CMAES = lb_popsize_CMAES_of n_equivalent_multi_starts n_parameters;
          lb_iterations_CMAES = 50;
          max_iter_CMAES = 500;
          popsize_CMAES = fl (of_int \<lfloor>fl (of_int budget / of_int max_iter_CMAES)\<rfloor> - 1)
      in if lb_popsize_CMAES < popsize_CMAES then Inr (int_of_float popsize_CMAES, max_iter_CMAES)
         else if lb_popsize_CMAES = 0 then
           (if 0 < budget then Inl OverflowError else Inl ValueError)
         else
           let n_iter_CMAES = of_int \<lfloor>fl (float_of_int budget / lb_popsize_CMAES)\<rfloor> in
           if n_iter_CMAES < of_int lb_iterations_CMAES then Inl ValueError
           else Inr (lb_iterations_CMAES, int_of_float n_iter_CMAES))"

text \<open>
  Lines 135 to 148. Here the lower bound is a Python integer, and dividing by zero raises
  ZeroDivisionError.
\<close>

definition resolve_DiffEvol :: "int \<Rightarrow> int \<Rightarrow> error + int \<times> int" where
  "resolve_DiffEvol budget n_equivalent_multi_starts =
     (let lb_popsize_DE = 2 * n_equivalent_multi_starts;
          lb_iterations_DiffEvol = 25;
          max_iter_DE = 150;
          popsize_DiffEvol = fl (of_int \<lfloor>fl (of_int budget / of_int max_iter_DE)\<rfloor> - 1)
      in if float_of_int lb_popsize_DE < popsize_DiffEvol then
           Inr (int_of_float popsize_DiffEvol, max_iter_DE)
         else if lb_popsize_DE = 0 then Inl ZeroDivisionError
         else
           let n_iter_DE = of_int \<lfloor>fl (of_int budget / of_int lb_popsize_DE)\<rfloor> in
           if n_iter_DE < of_int lb_iterations_DiffEvol then Inl ValueError
           else Inr (lb_iterations_DiffEvol, int_of_float n_iter_DE))"

text \<open>
  The whole method. An exception is raised by line 109 when \<^verbatim>\<open>refinement_cost\<close> is zero,
  by the two resolutions above, and by line 181 when \<^verbatim>\<open>local_search_cost\<close> is zero.
\<close>

definition distribute_budget :: "int \<Rightarrow> int \<Rightarrow> int \<Rightarrow> int \<Rightarrow> error + budget_plan" where
  "distribute_budget n_equivalent_multi_starts gradient_eval_equivalent local_search_equivalent
       n_parameters =
     (let refinement_equivalent = 50;
          total_budget = n_equivalent_multi_starts * gradient_eval_equivalent * local_search_equivalent;
          local_search_cost = gradient_eval_equivalent * local_search_equivalent;
          refinement_cost = gradient_eval_equivalent * refinement_equivalent;
          b_global = np_round (fl (fl (4 / 10) * float_of_int total_budget));
          b_local = np_round (fl (fl (4 / 10) * float_of_int total_budget));
          b_refinement = total_budget - np_round (fl (fl (8 / 10) * float_of_int total_budget));
          b_CMAES = np_round (fl (fl (4 / 10) * float_of_int b_global));
          b_DiffEvol = int_of_float (fl (float_of_int b_global
                          - of_int (np_round (fl (fl (4 / 10) * float_of_int b_global)))))
      in if refinement_cost = 0 then Inl ZeroDivisionError
         else
           let n_refs = np_round (fl (of_int b_refinement / of_int refinement_cost)) in
           case resolve_CMAES b_CMAES n_equivalent_multi_starts n_parameters of
             Inl e \<Rightarrow> Inl e
           | Inr (p_CMAES, it_CMAES) \<Rightarrow>
           case resolve_DiffEvol b_DiffEvol n_equivalent_multi_starts of
             Inl e \<Rightarrow> Inl e
           | Inr (p_DiffEvol, it_DiffEvol) \<Rightarrow>
             let p_initial = np_round (fl (fl (fl (1 / 10) * float_of_int b_global)
                                           / float_of_int refinement_cost));
                 n_runtime_refinements = map np_round (linspace0 (n_refs - p_initial) 4 True);
                 p_runtime = map (\<lambda>ir. n_runtime_refinements ! ir - n_runtime_refinements ! (ir - 1))
                               [1..<length n_runtime_refinements]
             in if local_search_cost = 0 then Inl ZeroDivisionError
                else Inr \<lparr>budgets_total = total_budget,
                          budgets_global = b_global,
                          budgets_local = b_local,
                          budgets_refinement = b_refinement,
                          budgets_CMAES = b_CMAES,
                          budgets_DiffEvol = b_DiffEvol,
                          budgets_sampling_CMAES =
                            max (np_round (fl (of_int total_budget / 1000)))
                                \<lceil>fl (fl (25 / 10) * float_of_int p_CMAES)\<rceil>,
                          budgets_sampling_DiffEvol =
                            max (np_round (fl (of_int total_budget / 1000)))
                                (int_of_float (fl (fl (25 / 10) * float_of_int p_DiffEvol))),
                          n_refinements = n_refs,
                          popsizes_CMAES = p_CMAES,
                          popsizes_DiffEvol = p_DiffEvol,
                          popsizes_initial_refinements = p_initial,
                          popsizes_runtime_refinements = p_runtime,
                          n_iterations_CMAES = it_CMAES,
                          n_iterations_DiffEvol = it_DiffEvol,
                          n_iterations_global = max it_CMAES it_DiffEvol,
                          n_local_searches = np_round (fl (of_int b_local / of_int local_search_cost))\<rparr>)"

subsection \<open>The iteration scheduler\<close>

text \<open>
  Lines 315 to 323: the call indices of one heuristic are the elements of
  \<^verbatim>\<open>np.linspace(0, n_global, n_X, endpoint=False)\<close>, each converted by \<^verbatim>\<open>int\<close>.
  numpy raises ValueError for a negative number of samples.
\<close>

definition calls_to :: "int \<Rightarrow> int \<Rightarrow> error + int list" where
  "calls_to n_global n_X =
     (if n_X < 0 then Inl ValueError
      else Inr (map int_of_float (linspace0 n_global n_X False)))"

text \<open>
  The whole method: one tuple of tags for every outer iteration.
\<close>

definition schedule_iterations :: "int \<Rightarrow> int \<Rightarrow> int \<Rightarrow> error + string list list" where
  "schedule_iterations n_global n_CMAES n_DiffEvol =
     (case calls_to n_global n_CMAES of
        Inl e \<Rightarrow> Inl e
      | Inr calls_to_CMAES \<Rightarrow>
     (case calls_to n_global n_DiffEvol of
        Inl e \<Rightarrow> Inl e
      | Inr calls_to_DiffEvol \<Rightarrow>
          let calls_to_InitialRefine = [np_round (fl (fl (5 / 100) * float_of_int n_global))];
              calls_to_RuntimeRefine = [np_round (fl (fl (3 / 10) * float_of_int n_global)),
                                        np_round (fl (fl (5 / 10) * float_of_int n_global)),
                                        np_round (fl (fl (7 / 10) * float_of_int n_global))]
          in Inr (map (\<lambda>iteration.
                    (if iteration \<in> set calls_to_CMAES then [''CMAES''] else [])
                  @ (if iteration \<in> set calls_to_DiffEvol then [''DiffEvol''] else [])
                  @ (if iteration \<in> set calls_to_InitialRefine then [''InitialRefine''] else [])
                  @ (if iteration \<in> set calls_to_RuntimeRefine then [''RuntimeRefine''] else []))
                 [0..n_global - 1])))"

subsection \<open>The final search\<close>

text \<open>
  An \<^verbatim>\<open>OptimizeResult\<close> as the local solver returns it: the parameter vector and the
  objective value.
\<close>

record optimize_result =
  res_x :: "real list"
  res_fval :: fval

text \<open>
  \<^verbatim>\<open>np.argsort\<close> orders doubles ascending with the NaNs last. The order among equal values
  depends on the sorting algorithm of numpy; the model takes the stable one.
\<close>

fun sort_rank :: "fval \<Rightarrow> bool \<times> real" where
  "sort_rank (Fin a) = (False, a)"
| "sort_rank NaN = (True, 0)"

definition argsort :: "fval list \<Rightarrow> nat list" where
  "argsort a = sort_key (\<lambda>i. sort_rank (a ! i)) [0..<length a]"

text \<open>
  The loop of lines 568 to 581. The points come from the sampler; the rescaling to the
  bounds (\<^verbatim>\<open>mary9/util.py\<close>) and the local solver (\<^verbatim>\<open>FidesWrapper.minimize\<close>) are not
  part of the sources at hand and are parameters.
\<close>

definition run_final_searches ::
  "(real list \<Rightarrow> real list) \<Rightarrow> (real list \<Rightarrow> nat \<Rightarrow> optimize_result) \<Rightarrow> real list list
     \<Rightarrow> optimize_result list" where
  "run_final_searches rescale_to_bounds minimize final_search_points =
     map (\<lambda>(id, point). minimize (rescale_to_bounds point) id) (enumerate 0 final_search_points)"

text \<open>Lines 583 to 585: the results are appended in the order of the argsort.\<close>

definition perform_final_search ::
  "(real list \<Rightarrow> real list) \<Rightarrow> (real list \<Rightarrow> nat \<Rightarrow> optimize_result) \<Rightarrow> real list list
     \<Rightarrow> optimize_result list \<Rightarrow> optimize_result list" where
  "perform_final_search rescale_to_bounds minimize final_search_points self_final_results =
     (let final_results = run_final_searches rescale_to_bounds minimize final_search_points;
          final_fvals = map res_fval final_results;
          ordering = argsort final_fvals
      in self_final_results @ map (\<lambda>ord. final_results ! ord) ordering)"


section \<open>Evaluating the double-precision model\<close>

lemma fl_code [code]: "fl x = (if x = 0 then 0 else fl_at x (binade x - 52))"
proof (cases "0 \<le> binade x - 52")
  case True
  then have "(2::real) powi (binade x - 52) = 2 ^ nat (binade x - 52)"
    by (simp add: power_int_def)
  with True show ?thesis by (simp add: fl_def fl_at_def fl_up_def Let_def)
next
  case False
  then have "(2::real) powi (binade x - 52) = 1 / 2 ^ nat (- (binade x - 52))"
    by (simp add: power_int_def power_inverse inverse_eq_divide power_one_over)
  with False show ?thesis by (simp add: fl_def fl_at_def fl_down_def Let_def)
qed

subsection \<open>The rounding is the rounding to the nearest double\<close>

text \<open>
  The exponent found by \<open>binade\<close> is the right one, so the result of \<open>fl\<close> has a
  mantissa of 53 bits; it differs from its argument by at most half a unit in the last
  place, that is by at most the fraction \<open>2 powi -53\<close> of the argument's magnitude; and the
  integers below \<open>2 ^ 53\<close> are doubles.
\<close>

lemma ilog2_bounds:
  "1 \<le> n \<Longrightarrow> 0 \<le> ilog2 n \<and> 2 ^ nat (ilog2 n) \<le> n \<and> n < 2 ^ nat (ilog2 n + 1)"
proof (induction n rule: ilog2.induct)
  case (1 n)
  show ?case
  proof (cases "n < 2")
    case True
    with "1.prems" have "n = 1" by simp
    then show ?thesis by (simp add: ilog2.simps)
  next
    case False
    then have half: "1 \<le> n div 2" by simp
    from "1.IH" [OF False half] have k: "0 \<le> ilog2 (n div 2)"
      and lo: "2 ^ nat (ilog2 (n div 2)) \<le> n div 2"
      and hi: "n div 2 < 2 ^ nat (ilog2 (n div 2) + 1)" by simp_all
    from False have eq: "ilog2 n = ilog2 (n div 2) + 1" by (subst ilog2.simps) simp
    from k have p1: "(2::int) ^ nat (ilog2 (n div 2) + 1) = 2 * 2 ^ nat (ilog2 (n div 2))"
      by (simp add: nat_add_distrib)
    from k have p2: "(2::int) ^ nat (ilog2 (n div 2) + 1 + 1) = 2 * 2 ^ nat (ilog2 (n div 2) + 1)"
      by (simp add: nat_add_distrib)
    have "2 * (n div 2) \<le> n" by simp
    with lo p1 have a: "2 ^ nat (ilog2 n) \<le> n" unfolding eq by linarith
    have "n < 2 * (n div 2) + 2" by presburger
    with hi p2 have b: "n < 2 ^ nat (ilog2 n + 1)" unfolding eq by linarith
    from k a b show ?thesis unfolding eq by simp
  qed
qed

lemma round_half_even_error: "\<bar>of_int (round_half_even m) - m\<bar> \<le> 1 / 2"
proof -
  have "of_int \<lfloor>m\<rfloor> \<le> m" "m < of_int \<lfloor>m\<rfloor> + 1" by linarith+
  then show ?thesis
    by (auto simp: round_half_even_def Let_def)
qed

lemma round_half_even_of_int [simp]: "round_half_even (of_int k) = k"
  by (simp add: round_half_even_def)

lemma binade_le:
  assumes "x \<noteq> 0"
  shows "2 powi binade x \<le> \<bar>x\<bar>"
proof (cases "1 \<le> \<bar>x\<bar>")
  case True
  then have n: "1 \<le> \<lfloor>\<bar>x\<bar>\<rfloor>" by linarith
  from ilog2_bounds [OF n] have k: "0 \<le> ilog2 \<lfloor>\<bar>x\<bar>\<rfloor>"
    and lo: "2 ^ nat (ilog2 \<lfloor>\<bar>x\<bar>\<rfloor>) \<le> \<lfloor>\<bar>x\<bar>\<rfloor>" by simp_all
  have "(2::real) ^ nat (ilog2 \<lfloor>\<bar>x\<bar>\<rfloor>) = real_of_int (2 ^ nat (ilog2 \<lfloor>\<bar>x\<bar>\<rfloor>))" by simp
  also have "\<dots> \<le> of_int \<lfloor>\<bar>x\<bar>\<rfloor>" using lo by (simp only: of_int_le_iff)
  also have "\<dots> \<le> \<bar>x\<bar>" by (rule of_int_floor_le)
  finally have "(2::real) ^ nat (ilog2 \<lfloor>\<bar>x\<bar>\<rfloor>) \<le> \<bar>x\<bar>" .
  with True k show ?thesis by (simp add: binade_def power_int_def)
next
  case False
  with assms have x: "0 < \<bar>x\<bar>" "\<bar>x\<bar> < 1" by simp_all
  then have "1 < 1 / \<bar>x\<bar>" by simp
  then have c: "1 \<le> \<lceil>1 / \<bar>x\<bar>\<rceil> - 1" by linarith
  let ?k = "ilog2 (\<lceil>1 / \<bar>x\<bar>\<rceil> - 1) + 1"
  from ilog2_bounds [OF c] have k: "0 \<le> ilog2 (\<lceil>1 / \<bar>x\<bar>\<rceil> - 1)"
    and hi: "\<lceil>1 / \<bar>x\<bar>\<rceil> - 1 < 2 ^ nat ?k" by simp_all
  from hi have "\<lceil>1 / \<bar>x\<bar>\<rceil> \<le> 2 ^ nat ?k" by simp
  then have le: "real_of_int \<lceil>1 / \<bar>x\<bar>\<rceil> \<le> real_of_int (2 ^ nat ?k)"
    by (simp only: of_int_le_iff)
  have "1 / \<bar>x\<bar> \<le> of_int \<lceil>1 / \<bar>x\<bar>\<rceil>" by (rule le_of_int_ceiling)
  also note le
  also have "real_of_int (2 ^ nat ?k) = 2 ^ nat ?k" by simp
  finally have "1 / \<bar>x\<bar> \<le> 2 ^ nat ?k" .
  with x(1) have "1 \<le> 2 ^ nat ?k * \<bar>x\<bar>" by (simp add: field_simps)
  then have "1 / 2 ^ nat ?k \<le> \<bar>x\<bar>" by (simp add: field_simps)
  moreover from k have "binade x = - ?k" using False by (simp add: binade_def)
  moreover from k have "(2::real) powi (- ?k) = 1 / 2 ^ nat ?k"
    by (simp add: power_int_def power_inverse inverse_eq_divide power_one_over)
  ultimately show ?thesis by simp
qed

lemma binade_gt:
  assumes "x \<noteq> 0"
  shows "\<bar>x\<bar> < 2 powi (binade x + 1)"
proof (cases "1 \<le> \<bar>x\<bar>")
  case True
  then have n: "1 \<le> \<lfloor>\<bar>x\<bar>\<rfloor>" by linarith
  let ?k = "ilog2 \<lfloor>\<bar>x\<bar>\<rfloor>"
  from ilog2_bounds [OF n] have k: "0 \<le> ?k" and hi: "\<lfloor>\<bar>x\<bar>\<rfloor> < 2 ^ nat (?k + 1)" by simp_all
  from hi have "\<lfloor>\<bar>x\<bar>\<rfloor> + 1 \<le> 2 ^ nat (?k + 1)" by simp
  then have le: "real_of_int (\<lfloor>\<bar>x\<bar>\<rfloor> + 1) \<le> real_of_int (2 ^ nat (?k + 1))"
    by (simp only: of_int_le_iff)
  have "\<bar>x\<bar> < real_of_int (\<lfloor>\<bar>x\<bar>\<rfloor> + 1)" by linarith
  also note le
  also have "real_of_int (2 ^ nat (?k + 1)) = 2 powi (?k + 1)" using k by (simp add: power_int_def)
  finally show ?thesis using True by (simp add: binade_def)
next
  case False
  with assms have x: "0 < \<bar>x\<bar>" "\<bar>x\<bar> < 1" by simp_all
  then have "1 < 1 / \<bar>x\<bar>" by simp
  then have c: "1 \<le> \<lceil>1 / \<bar>x\<bar>\<rceil> - 1" by linarith
  let ?k = "ilog2 (\<lceil>1 / \<bar>x\<bar>\<rceil> - 1)"
  from ilog2_bounds [OF c] have k: "0 \<le> ?k" and lo: "2 ^ nat ?k \<le> \<lceil>1 / \<bar>x\<bar>\<rceil> - 1" by simp_all
  from lo have le: "real_of_int (2 ^ nat ?k) \<le> real_of_int (\<lceil>1 / \<bar>x\<bar>\<rceil> - 1)"
    by (simp only: of_int_le_iff)
  have "(2::real) ^ nat ?k = real_of_int (2 ^ nat ?k)" by simp
  also note le
  also have "real_of_int (\<lceil>1 / \<bar>x\<bar>\<rceil> - 1) < 1 / \<bar>x\<bar>" by linarith
  finally have "(2::real) ^ nat ?k < 1 / \<bar>x\<bar>" .
  with x(1) have "\<bar>x\<bar> * 2 ^ nat ?k < 1" by (simp add: field_simps)
  then have "\<bar>x\<bar> < 1 / 2 ^ nat ?k" by (simp add: field_simps)
  moreover from k have "binade x + 1 = - ?k" using False by (simp add: binade_def)
  moreover from k have "(2::real) powi (- ?k) = 1 / 2 ^ nat ?k"
    by (simp add: power_int_def power_inverse inverse_eq_divide power_one_over)
  ultimately show ?thesis by simp
qed

lemma round_half_even_mono:
  assumes "of_int a \<le> y" shows "a \<le> round_half_even y"
proof -
  from assms have "a \<le> \<lfloor>y\<rfloor>" by (simp add: le_floor_iff)
  moreover have "\<lfloor>y\<rfloor> \<le> round_half_even y" by (simp add: round_half_even_def Let_def)
  ultimately show ?thesis by simp
qed

lemma round_half_even_mono':
  assumes "y \<le> of_int b" shows "round_half_even y \<le> b"
proof (cases "y = of_int b")
  case True
  then show ?thesis by simp
next
  case False
  with assms have "y < of_int b" by simp
  then have "\<lfloor>y\<rfloor> < b" by (simp only: floor_less_iff)
  then have "\<lfloor>y\<rfloor> + 1 \<le> b" by simp
  moreover have "round_half_even y \<le> \<lfloor>y\<rfloor> + 1" by (simp add: round_half_even_def Let_def)
  ultimately show ?thesis by simp
qed

lemma fl_mantissa:
  assumes "x \<noteq> 0"
  shows "\<exists>m. fl x = of_int m * 2 powi (binade x - 52) \<and> 2 ^ 52 \<le> \<bar>m\<bar> \<and> \<bar>m\<bar> \<le> 2 ^ 53"
proof -
  define u where "u = (2::real) powi (binade x - 52)"
  define y where "y = x / u"
  define m where "m = round_half_even y"
  have u: "0 < u" by (simp add: u_def)
  have ub: "u * 2 ^ 52 = 2 powi binade x" by (simp add: u_def power_int_diff)
  have ub1: "u * 2 ^ 53 = 2 powi (binade x + 1)" by (simp add: u_def power_int_diff power_int_add)
  have "\<bar>y\<bar> = \<bar>x\<bar> / u" using u by (simp add: y_def)
  moreover have "2 ^ 52 \<le> \<bar>x\<bar> / u" using binade_le [OF assms] u ub by (simp add: field_simps)
  moreover have "\<bar>x\<bar> / u < 2 ^ 53" using binade_gt [OF assms] u ub1 by (simp add: field_simps)
  ultimately have lo: "2 ^ 52 \<le> \<bar>y\<bar>" and hi: "\<bar>y\<bar> \<le> 2 ^ 53" by simp_all
  have bounds: "2 ^ 52 \<le> \<bar>m\<bar> \<and> \<bar>m\<bar> \<le> 2 ^ 53"
  proof (cases "0 \<le> y")
    case True
    with lo hi have a: "real_of_int (2 ^ 52) \<le> y" and b: "y \<le> real_of_int (2 ^ 53)"
      by simp_all
    have "2 ^ 52 \<le> m" unfolding m_def by (rule round_half_even_mono [OF a])
    moreover have "m \<le> 2 ^ 53" unfolding m_def by (rule round_half_even_mono' [OF b])
    ultimately show ?thesis by simp
  next
    case False
    with lo hi have a: "y \<le> real_of_int (- (2 ^ 52))" and b: "real_of_int (- (2 ^ 53)) \<le> y"
      by simp_all
    have "m \<le> - (2 ^ 52)" unfolding m_def by (rule round_half_even_mono' [OF a])
    moreover have "- (2 ^ 53) \<le> m" unfolding m_def by (rule round_half_even_mono [OF b])
    ultimately show ?thesis by simp
  qed
  have "fl x = of_int m * u" using assms by (simp add: fl_def Let_def m_def y_def u_def)
  with bounds show ?thesis unfolding u_def by blast
qed

lemma fl_error: "\<bar>fl x - x\<bar> \<le> \<bar>x\<bar> / 2 ^ 53"
proof (cases "x = 0")
  case True
  then show ?thesis by (simp add: fl_def)
next
  case False
  let ?u = "(2::real) powi (binade x - 52)"
  have u: "0 < ?u" by simp
  have "fl x - x = (of_int (round_half_even (x / ?u)) - x / ?u) * ?u"
    using False u by (simp add: fl_def Let_def field_simps)
  then have "\<bar>fl x - x\<bar> = \<bar>of_int (round_half_even (x / ?u)) - x / ?u\<bar> * ?u"
    using u by (simp add: abs_mult)
  also have "\<dots> \<le> (1 / 2) * ?u"
    using round_half_even_error [of "x / ?u"] u by (intro mult_right_mono) simp_all
  also have "?u = 2 powi binade x / 2 ^ 52"
    by (simp add: power_int_diff)
  also have "1 / 2 * (2 powi binade x / 2 ^ 52) \<le> 1 / 2 * (\<bar>x\<bar> / 2 ^ 52)"
    using binade_le [OF False] by (simp add: divide_right_mono)
  finally show ?thesis by simp
qed


lemma fl_of_int:
  assumes "\<bar>k\<bar> < 2 ^ 53"
  shows "fl (of_int k) = of_int k"
proof (cases "k = 0")
  case True
  then show ?thesis by (simp add: fl_def)
next
  case False
  let ?x = "real_of_int k"
  from False have x0: "?x \<noteq> 0" by simp
  have "\<bar>?x\<bar> = of_int \<bar>k\<bar>" by simp
  also have "\<dots> < of_int (2 ^ 53)" using assms by (simp only: of_int_less_iff)
  finally have lt: "\<bar>?x\<bar> < 2 powi 53" by simp
  have e: "binade ?x \<le> 52"
  proof (rule ccontr)
    assume "\<not> binade ?x \<le> 52"
    then have "53 \<le> binade ?x" by simp
    then have "(2::real) powi 53 \<le> 2 powi binade ?x" by (intro power_int_increasing) simp_all
    with binade_le [OF x0] lt show False by linarith
  qed
  let ?m = "nat (52 - binade ?x)"
  from e have u: "(2::real) powi (binade ?x - 52) = 1 / 2 ^ ?m"
    by (simp add: power_int_def power_inverse inverse_eq_divide power_one_over)
  have "?x / (1 / 2 ^ ?m) = of_int (k * 2 ^ ?m)" by simp
  then have "round_half_even (?x / (1 / 2 ^ ?m)) = k * 2 ^ ?m"
    by (simp only: round_half_even_of_int)
  with x0 u show ?thesis by (simp add: fl_def Let_def)
qed

section \<open>Properties of the knowledge exchange\<close>

lemma exchange_step_cases:
  assumes "exchange_step F C W T fo g s i = Inr s'"
  shows "s' = s \<or>
    (\<exists>t. i < length C \<and> C ! i < length F \<and> i < length W \<and> W ! i < length (to_individuals s)
       \<and> threshold_of T fo g (heap s ! (to_individuals s ! (W ! i))) = Inr t
       \<and> fless (fitness (heap s ! (F ! (C ! i)))) t
       \<and> \<not> point_already_in_population (heap s) (to_individuals s) (heap s ! (F ! (C ! i)))
       \<and> s' = \<lparr>heap = heap s @ [heap s ! (F ! (C ! i))],
                to_individuals = (to_individuals s)[W ! i := length (heap s)],
                points_exchanged = points_exchanged s + 1\<rparr>)"
  using assms
  by (auto simp: exchange_step_def Let_def split: if_splits sum.splits)

lemma exchange_loop_invariant:
  assumes "exchange_loop F C W T fo g is s = (exc, s')"
    and "P is s"
    and "\<And>i is s s1. P (i # is) s \<Longrightarrow> exchange_step F C W T fo g s i = Inr s1 \<Longrightarrow> P is s1"
  shows "\<exists>is'. P is' s'"
  using assms(1,2)
proof (induction "is" arbitrary: s)
  case Nil
  then show ?case by auto
next
  case (Cons i "is")
  show ?case
  proof (cases "exchange_step F C W T fo g s i")
    case (Inl e)
    with Cons.prems show ?thesis by auto
  next
    case (Inr s1)
    with Cons.prems have "exchange_loop F C W T fo g is s1 = (exc, s')" by simp
    moreover have "P is s1" using assms(3) Cons.prems(2) Inr by blast
    ultimately show ?thesis by (rule Cons.IH)
  qed
qed

lemma exchange_loop_slots:
  assumes "exchange_loop F C W T fo g is s = (exc, s')"
  shows "length (to_individuals s') = length (to_individuals s)
       \<and> length (heap s) \<le> length (heap s')
       \<and> (\<forall>j<length (to_individuals s). to_individuals s' ! j = to_individuals s ! j
             \<or> (length (heap s) \<le> to_individuals s' ! j \<and> to_individuals s' ! j < length (heap s')))"
proof -
  let ?P = "\<lambda>(is::nat list) u. length (to_individuals u) = length (to_individuals s)
       \<and> length (heap s) \<le> length (heap u)
       \<and> (\<forall>j<length (to_individuals s). to_individuals u ! j = to_individuals s ! j
             \<or> (length (heap s) \<le> to_individuals u ! j \<and> to_individuals u ! j < length (heap u)))"
  have "\<exists>is'. ?P is' s'"
  proof (rule exchange_loop_invariant [OF assms, where P = ?P])
    show "?P is s" by simp
  next
    fix i "is" u u1
    assume P: "?P (i # is) u" and st: "exchange_step F C W T fo g u i = Inr u1"
    from exchange_step_cases [OF st] show "?P is u1"
    proof
      assume "u1 = u" with P show ?thesis by simp
    next
      assume "\<exists>t. i < length C \<and> C ! i < length F \<and> i < length W \<and> W ! i < length (to_individuals u)
       \<and> threshold_of T fo g (heap u ! (to_individuals u ! (W ! i))) = Inr t
       \<and> fless (fitness (heap u ! (F ! (C ! i)))) t
       \<and> \<not> point_already_in_population (heap u) (to_individuals u) (heap u ! (F ! (C ! i)))
       \<and> u1 = \<lparr>heap = heap u @ [heap u ! (F ! (C ! i))],
                to_individuals = (to_individuals u)[W ! i := length (heap u)],
                points_exchanged = points_exchanged u + 1\<rparr>"
      then have h1: "heap u1 = heap u @ [heap u ! (F ! (C ! i))]"
        and t1: "to_individuals u1 = (to_individuals u)[W ! i := length (heap u)]" by auto
      show ?thesis
      proof (intro conjI allI impI)
        show "length (to_individuals u1) = length (to_individuals s)" using P t1 by simp
        show "length (heap s) \<le> length (heap u1)" using P h1 by simp
        fix j assume j: "j < length (to_individuals s)"
        show "to_individuals u1 ! j = to_individuals s ! j
             \<or> (length (heap s) \<le> to_individuals u1 ! j \<and> to_individuals u1 ! j < length (heap u1))"
        proof (cases "j = W ! i")
          case True
          then show ?thesis using P j t1 h1 by simp
        next
          case False
          then have "to_individuals u1 ! j = to_individuals u ! j" using t1 by simp
          moreover from P j have "to_individuals u ! j = to_individuals s ! j
             \<or> (length (heap s) \<le> to_individuals u ! j \<and> to_individuals u ! j < length (heap u))"
            by blast
          ultimately show ?thesis using h1 by auto
        qed
      qed
    qed
  qed
  then show ?thesis by simp
qed

lemma exchange_loop_only_best:
  assumes "exchange_loop F C W ''only best'' fo g is s = (exc, s')"
  shows "\<exists>ext. heap s' = heap s @ ext \<and> (\<forall>c\<in>set ext. \<exists>t. fo = Some t \<and> fless (fitness c) t)"
proof -
  let ?P = "\<lambda>(is::nat list) u. \<exists>ext. heap u = heap s @ ext
              \<and> (\<forall>c\<in>set ext. \<exists>t. fo = Some t \<and> fless (fitness c) t)"
  have "\<exists>is'. ?P is' s'"
  proof (rule exchange_loop_invariant [OF assms, where P = ?P])
    show "?P is s" by simp
  next
    fix i "is" u u1
    assume P: "?P (i # is) u" and st: "exchange_step F C W ''only best'' fo g u i = Inr u1"
    from P obtain ext where ext: "heap u = heap s @ ext"
      "\<forall>c\<in>set ext. \<exists>t. fo = Some t \<and> fless (fitness c) t" by blast
    from exchange_step_cases [OF st] show "?P is u1"
    proof
      assume "u1 = u" with P show ?thesis by simp
    next
      assume "\<exists>t. i < length C \<and> C ! i < length F \<and> i < length W \<and> W ! i < length (to_individuals u)
       \<and> threshold_of ''only best'' fo g (heap u ! (to_individuals u ! (W ! i))) = Inr t
       \<and> fless (fitness (heap u ! (F ! (C ! i)))) t
       \<and> \<not> point_already_in_population (heap u) (to_individuals u) (heap u ! (F ! (C ! i)))
       \<and> u1 = \<lparr>heap = heap u @ [heap u ! (F ! (C ! i))],
                to_individuals = (to_individuals u)[W ! i := length (heap u)],
                points_exchanged = points_exchanged u + 1\<rparr>"
      then obtain t where t: "threshold_of ''only best'' fo g (heap u ! (to_individuals u ! (W ! i))) = Inr t"
        "fless (fitness (heap u ! (F ! (C ! i)))) t"
        and h1: "heap u1 = heap u @ [heap u ! (F ! (C ! i))]" by auto
      from t(1) have "fo = Some t" by (simp add: threshold_of_def split: option.splits)
      with t(2) ext h1 have "heap u1 = heap s @ (ext @ [heap u ! (F ! (C ! i))])
        \<and> (\<forall>c\<in>set (ext @ [heap u ! (F ! (C ! i))]). \<exists>t. fo = Some t \<and> fless (fitness c) t)"
        by auto
      then show ?thesis by blast
    qed
  qed
  then show ?thesis by simp
qed

lemma exchange_loop_copies:
  assumes "exchange_loop F C W T fo g is s = (exc, s')"
    and "set F \<subseteq> {..<length (heap s)}"
  shows "\<exists>ext. heap s' = heap s @ ext \<and> set ext \<subseteq> (\<lambda>a. heap s ! a) ` set F"
proof -
  let ?P = "\<lambda>(is::nat list) u. \<exists>ext. heap u = heap s @ ext \<and> set ext \<subseteq> (\<lambda>a. heap s ! a) ` set F"
  have "\<exists>is'. ?P is' s'"
  proof (rule exchange_loop_invariant [OF assms(1), where P = ?P])
    show "?P is s" by simp
  next
    fix i "is" u u1
    assume P: "?P (i # is) u" and st: "exchange_step F C W T fo g u i = Inr u1"
    from P obtain ext where ext: "heap u = heap s @ ext"
      "set ext \<subseteq> (\<lambda>a. heap s ! a) ` set F" by blast
    from exchange_step_cases [OF st] show "?P is u1"
    proof
      assume "u1 = u" with P show ?thesis by simp
    next
      assume "\<exists>t. i < length C \<and> C ! i < length F \<and> i < length W \<and> W ! i < length (to_individuals u)
       \<and> threshold_of T fo g (heap u ! (to_individuals u ! (W ! i))) = Inr t
       \<and> fless (fitness (heap u ! (F ! (C ! i)))) t
       \<and> \<not> point_already_in_population (heap u) (to_individuals u) (heap u ! (F ! (C ! i)))
       \<and> u1 = \<lparr>heap = heap u @ [heap u ! (F ! (C ! i))],
                to_individuals = (to_individuals u)[W ! i := length (heap u)],
                points_exchanged = points_exchanged u + 1\<rparr>"
      then have c: "C ! i < length F"
        and h1: "heap u1 = heap u @ [heap u ! (F ! (C ! i))]" by auto
      from c have m: "F ! (C ! i) \<in> set F" by simp
      with assms(2) have "F ! (C ! i) < length (heap s)" by auto
      with ext(1) have "heap u ! (F ! (C ! i)) = heap s ! (F ! (C ! i))"
        by (simp add: nth_append)
      with m have "heap u ! (F ! (C ! i)) \<in> (\<lambda>a. heap s ! a) ` set F" by simp
      with ext h1 have "heap u1 = heap s @ (ext @ [heap u ! (F ! (C ! i))])
        \<and> set (ext @ [heap u ! (F ! (C ! i))]) \<subseteq> (\<lambda>a. heap s ! a) ` set F"
        by simp
      then show ?thesis by blast
    qed
  qed
  then show ?thesis by simp
qed


lemma share_knowledge_cases:
  fixes SS WS h F U k strat T gt
  defines "r \<equiv> share_knowledge SS WS h F U k strat T gt"
  shows "(heap_after r = h \<and> to_after r = U
            \<and> ((\<exists>e. outcome r = Inl e \<and> logged r = [])
                 \<or> (outcome r = Inr PyNone \<and> logged r = [NoneExchanged k])))
       \<or> (\<exists>sp C exc s fo.
            SS (individuals h F) k strat ((25 / 100) / real (length F)) = (sp, C)
          \<and> exchange_loop F C (WS (individuals h U) k) T fo (nanpercentile5 (get_fitness h U))
               [0..<length sp] \<lparr>heap = h, to_individuals = U, points_exchanged = 0\<rparr> = (exc, s)
          \<and> heap_after r = heap s \<and> to_after r = to_individuals s
          \<and> (if gt then \<exists>t. nanmin (get_fitness h U) = Inr t \<and> fo = Some t else fo = None)
          \<and> (case exc of Some e \<Rightarrow> outcome r = Inl e \<and> logged r = []
               | None \<Rightarrow> outcome r = Inr PyNone \<and> logged r = [Exchanged (points_exchanged s) k]))"
  unfolding r_def share_knowledge_def gate_def
  by (auto simp: Let_def split: sum.splits option.splits prod.splits bool.splits if_splits)

lemma exchange_loop_card:
  assumes loop: "exchange_loop F C W T fo g is s = (exc, s')"
    and dW: "distinct W" and dis: "distinct is"
    and wf: "\<forall>j<length (to_individuals s). to_individuals s ! j < length (heap s)"
    and pe: "points_exchanged s = 0"
  shows "card {j. j < length (to_individuals s) \<and> to_individuals s' ! j \<noteq> to_individuals s ! j}
           = points_exchanged s'"
proof -
  let ?U = "to_individuals s"
  let ?D = "\<lambda>u. {j. j < length ?U \<and> to_individuals u ! j \<noteq> ?U ! j}"
  let ?P = "\<lambda>is u. distinct is \<and> length (to_individuals u) = length ?U
        \<and> length (heap s) \<le> length (heap u)
        \<and> (\<forall>j\<in>?D u. \<exists>i<length W. i \<notin> set is \<and> W ! i = j)
        \<and> card (?D u) = points_exchanged u"
  have "\<exists>is'. ?P is' s'"
  proof (rule exchange_loop_invariant [OF loop, where P = ?P])
    show "?P is s" using dis pe by simp
  next
    fix i "is" u u1
    assume P: "?P (i # is) u" and st: "exchange_step F C W T fo g u i = Inr u1"
    from exchange_step_cases [OF st] show "?P is u1"
    proof
      assume "u1 = u" with P show ?thesis by auto
    next
      assume "\<exists>t. i < length C \<and> C ! i < length F \<and> i < length W \<and> W ! i < length (to_individuals u)
       \<and> threshold_of T fo g (heap u ! (to_individuals u ! (W ! i))) = Inr t
       \<and> fless (fitness (heap u ! (F ! (C ! i)))) t
       \<and> \<not> point_already_in_population (heap u) (to_individuals u) (heap u ! (F ! (C ! i)))
       \<and> u1 = \<lparr>heap = heap u @ [heap u ! (F ! (C ! i))],
                to_individuals = (to_individuals u)[W ! i := length (heap u)],
                points_exchanged = points_exchanged u + 1\<rparr>"
      then have iW: "i < length W" and w: "W ! i < length (to_individuals u)"
        and h1: "heap u1 = heap u @ [heap u ! (F ! (C ! i))]"
        and t1: "to_individuals u1 = (to_individuals u)[W ! i := length (heap u)]"
        and p1: "points_exchanged u1 = points_exchanged u + 1" by auto
      from P w have wU: "W ! i < length ?U" by simp
      with wf P have fresh: "?U ! (W ! i) < length (heap u)" by fastforce
      have D1: "?D u1 = insert (W ! i) (?D u)"
        using t1 wU fresh P by (auto simp: nth_list_update)
      have notin: "W ! i \<notin> ?D u"
      proof
        assume "W ! i \<in> ?D u"
        with P obtain i' where i': "i' < length W" "i' \<notin> set (i # is)" "W ! i' = W ! i" by blast
        with dW iW have "i' = i" by (simp add: nth_eq_iff_index_eq)
        with i'(2) show False by simp
      qed
      have fin: "finite (?D u)" by simp
      have card1: "card (?D u1) = points_exchanged u1"
        using D1 notin fin P p1 by simp
      have cover: "\<forall>j\<in>?D u1. \<exists>i'<length W. i' \<notin> set is \<and> W ! i' = j"
      proof
        fix j assume "j \<in> ?D u1"
        with D1 have "j = W ! i \<or> j \<in> ?D u" by blast
        then show "\<exists>i'<length W. i' \<notin> set is \<and> W ! i' = j"
        proof
          assume "j = W ! i"
          with iW P show ?thesis by auto
        next
          assume "j \<in> ?D u"
          with P obtain i' where "i' < length W" "i' \<notin> set (i # is)" "W ! i' = j" by blast
          then show ?thesis by auto
        qed
      qed
      show ?thesis using P t1 h1 card1 cover by simp
    qed
  qed
  then show ?thesis by blast
qed

lemma linalg_norm_less_iff:
  assumes "0 < e"
  shows "linalg_norm v < e \<longleftrightarrow> sum_list (map (\<lambda>c. c\<^sup>2) v) < e\<^sup>2"
proof -
  have nn: "0 \<le> sum_list (map (\<lambda>c. c\<^sup>2) v)" by (rule sum_list_nonneg) auto
  have "sqrt (sum_list (map (\<lambda>c. c\<^sup>2) v)) < e \<longleftrightarrow> sqrt (sum_list (map (\<lambda>c. c\<^sup>2) v)) < sqrt (e\<^sup>2)"
    using assms by simp
  also have "\<dots> \<longleftrightarrow> sum_list (map (\<lambda>c. c\<^sup>2) v) < e\<^sup>2"
    by (rule real_sqrt_less_iff)
  finally show ?thesis by (simp add: linalg_norm_def)
qed

lemma exchange_loop_count:
  assumes "exchange_loop F C W T fo g is s = (exc, s')"
  shows "\<exists>ext. heap s' = heap s @ ext
           \<and> points_exchanged s' = points_exchanged s + length ext
           \<and> length ext \<le> length is"
proof -
  let ?P = "\<lambda>(is'::nat list) u. \<exists>ext. heap u = heap s @ ext
           \<and> points_exchanged u = points_exchanged s + length ext
           \<and> length ext + length is' \<le> length is"
  have "\<exists>is'. ?P is' s'"
  proof (rule exchange_loop_invariant [OF assms, where P = ?P])
    show "?P is s" by simp
  next
    fix i is' u u1
    assume P: "?P (i # is') u" and st: "exchange_step F C W T fo g u i = Inr u1"
    from P obtain ext where ext: "heap u = heap s @ ext"
      "points_exchanged u = points_exchanged s + length ext"
      "length ext + length (i # is') \<le> length is" by blast
    from exchange_step_cases [OF st] show "?P is' u1"
    proof
      assume "u1 = u" with ext show ?thesis by auto
    next
      assume "\<exists>t. i < length C \<and> C ! i < length F \<and> i < length W \<and> W ! i < length (to_individuals u)
       \<and> threshold_of T fo g (heap u ! (to_individuals u ! (W ! i))) = Inr t
       \<and> fless (fitness (heap u ! (F ! (C ! i)))) t
       \<and> \<not> point_already_in_population (heap u) (to_individuals u) (heap u ! (F ! (C ! i)))
       \<and> u1 = \<lparr>heap = heap u @ [heap u ! (F ! (C ! i))],
                to_individuals = (to_individuals u)[W ! i := length (heap u)],
                points_exchanged = points_exchanged u + 1\<rparr>"
      then have "heap u1 = heap u @ [heap u ! (F ! (C ! i))]"
        and "points_exchanged u1 = points_exchanged u + 1" by auto
      with ext have "heap u1 = heap s @ (ext @ [heap u ! (F ! (C ! i))])
        \<and> points_exchanged u1 = points_exchanged s + length (ext @ [heap u ! (F ! (C ! i))])
        \<and> length (ext @ [heap u ! (F ! (C ! i))]) + length is' \<le> length is" by simp
      then show ?thesis by blast
    qed
  qed
  then show ?thesis by auto
qed


lemma linalg_norm_close [simp]:
  "linalg_norm v * 10000 < 1 \<longleftrightarrow> sum_list (map (\<lambda>c. c\<^sup>2) v) * 100000000 < 1"
  using linalg_norm_less_iff [of "1 / 10000" v] by (simp add: power2_eq_square)

lemmas ex_defs = ex_store_def ex_select_subsample_def ex_select_weakest_sample_def
  share_knowledge_def gate_def nanmin_def get_fitness_def individuals_def exchange_step_def
  threshold_of_def point_already_in_population_def vec_sub_def nanpercentile5_def
  Let_def

lemma ex_run:
  "share_knowledge ex_select_subsample ex_select_weakest_sample ex_store [3, 4] [0, 1, 2] 2
     (6/10, 0, 0, 4/10) ''only best'' True
   = \<lparr>outcome = Inr PyNone, logged = [Exchanged 2 2],
      heap_after = ex_store @ [ex_store ! 3, ex_store ! 4], to_after = [0, 6, 5]\<rparr>"
  by (simp add: ex_defs upt_rec numeral_2_eq_2 numeral_3_eq_3)

lemma ex_call_run:
  "ex_call = \<lparr>outcome = Inr PyNone, logged = [Exchanged 2 2],
      heap_after = ex_store @ [ex_store ! 3, ex_store ! 4], to_after = [0, 6, 5]\<rparr>"
  unfolding ex_call_def by (rule ex_run)

lemma ex_fitness:
  "nanmin (get_fitness ex_store [0, 1, 2]) = Inr (Fin 10)"
  by (simp add: ex_store_def nanmin_def get_fitness_def individuals_def)

section \<open>The claims about the knowledge exchange\<close>

subsection \<open>The improvement gate\<close>

lemma gate_closed:
  assumes "nanmin (get_fitness h update_to) = Inr fo"
    and "nanmin (get_fitness h update_from) = Inr fn"
    and "\<not> fless fn fo"
  shows "gate h update_from update_to True = Inr (Some (fo, True))"
  using assms by (simp add: gate_def)

text \<open>
  Claim C6. With the improvement gate enabled, when the NaN-aware minimum of the source
  fitnesses is not strictly below that of the destination fitnesses, the call returns
  with nothing replaced: the destination population and the store are as before, and the
  log line says that none of the points was exchanged.
\<close>

theorem share_knowledge_gate_closed:
  assumes "nanmin (get_fitness h update_from) = Inr fittest_new"
    and "nanmin (get_fitness h update_to) = Inr fittest_old"
    and "\<not> fless fittest_new fittest_old"
  shows "share_knowledge select_subsample select_weakest_sample h update_from update_to
           update_popsize update_strategy update_threshold True
         = \<lparr>outcome = Inr PyNone, logged = [NoneExchanged update_popsize],
            heap_after = h, to_after = update_to\<rparr>"
  using gate_closed [OF assms(2) assms(1) assms(3)]
  by (simp add: share_knowledge_def)

text \<open>
  The witness: a source whose best fitness 2 does not improve on the destination's 1.
\<close>

theorem share_knowledge_gate_closed_witness:
  "nanmin (get_fitness [\<lparr>x_vec = [0], fitness = Fin 1, diversity = 0\<rparr>,
                        \<lparr>x_vec = [1], fitness = Fin 2, diversity = 0\<rparr>] [1]) = Inr (Fin 2)
   \<and> nanmin (get_fitness [\<lparr>x_vec = [0], fitness = Fin 1, diversity = 0\<rparr>,
                        \<lparr>x_vec = [1], fitness = Fin 2, diversity = 0\<rparr>] [0]) = Inr (Fin 1)
   \<and> \<not> fless (Fin 2) (Fin 1)
   \<and> share_knowledge (\<lambda>p n st b. ([[1]], [0])) (\<lambda>p n. [0])
        [\<lparr>x_vec = [0], fitness = Fin 1, diversity = 0\<rparr>,
         \<lparr>x_vec = [1], fitness = Fin 2, diversity = 0\<rparr>] [1] [0] 1 (6/10, 0, 0, 4/10)
        ''in between'' True
      = \<lparr>outcome = Inr PyNone, logged = [NoneExchanged 1],
         heap_after = [\<lparr>x_vec = [0], fitness = Fin 1, diversity = 0\<rparr>,
                       \<lparr>x_vec = [1], fitness = Fin 2, diversity = 0\<rparr>],
         to_after = [0]\<rparr>"
proof -
  let ?h = "[\<lparr>x_vec = [0], fitness = Fin 1, diversity = 0\<rparr>,
             \<lparr>x_vec = [1], fitness = Fin 2, diversity = 0::real\<rparr>]"
  have a: "nanmin (get_fitness ?h [1]) = Inr (Fin 2)"
    by (simp add: nanmin_def get_fitness_def individuals_def)
  have b: "nanmin (get_fitness ?h [0]) = Inr (Fin 1)"
    by (simp add: nanmin_def get_fitness_def individuals_def)
  have c: "\<not> fless (Fin 2) (Fin 1)" by simp
  show ?thesis
    using a b c share_knowledge_gate_closed [OF a b c] by simp
qed

subsection \<open>The duplicate guard\<close>



subsection \<open>The unbound threshold\<close>

text \<open>
  Claim C10. With the gate disabled and the policy \<^verbatim>\<open>only best\<close>, a call in which the
  sampler selects at least one candidate (with indices in range) raises
  UnboundLocalError at the first candidate: \<^verbatim>\<open>fittest_old\<close> is assigned only inside
  the gate. Nothing is exchanged and nothing is logged.
\<close>

theorem share_knowledge_only_best_unbound:
  assumes "select_subsample (individuals h update_from) update_popsize update_strategy
             ((25 / 100) / real (length update_from)) = (suggested_points, chosen)"
    and "select_weakest_sample (individuals h update_to) update_popsize = weakest_inds"
    and "suggested_points \<noteq> []"
    and "chosen \<noteq> []" and "chosen ! 0 < length update_from"
    and "weakest_inds \<noteq> []" and "weakest_inds ! 0 < length update_to"
  shows "share_knowledge select_subsample select_weakest_sample h update_from update_to
           update_popsize update_strategy ''only best'' False
         = \<lparr>outcome = Inl UnboundLocalError, logged = [], heap_after = h, to_after = update_to\<rparr>"
proof -
  from assms(5) have ne: "length update_from \<noteq> 0" by auto
  from assms(3) have upt: "[0..<length suggested_points] = 0 # [1..<length suggested_points]"
    by (simp add: upt_conv_Cons)
  have step: "exchange_step update_from chosen weakest_inds ''only best'' None g
      \<lparr>heap = h, to_individuals = update_to, points_exchanged = 0\<rparr> 0 = Inl UnboundLocalError" for g
    using assms(4-7) by (simp add: exchange_step_def threshold_of_def Let_def)
  show ?thesis
    using ne assms(1,2) by (simp add: share_knowledge_def gate_def upt step)
qed

theorem share_knowledge_only_best_unbound_witness:
  "share_knowledge ex_select_subsample ex_select_weakest_sample ex_store [3, 4] [0, 1, 2] 2
     (6/10, 0, 0, 4/10) ''only best'' False
   = \<lparr>outcome = Inl UnboundLocalError, logged = [], heap_after = ex_store, to_after = [0, 1, 2]\<rparr>"
  by (rule share_knowledge_only_best_unbound [where suggested_points = "[[5], [6]]"
        and chosen = "[0, 1]" and weakest_inds = "[2, 1]"])
     (simp_all add: ex_select_subsample_def ex_select_weakest_sample_def individuals_def
        ex_store_def upt_rec numeral_2_eq_2 numeral_3_eq_3)

subsection \<open>What the call reports\<close>

text \<open>
  Claim C4, as stated, fails: the method returns \<^verbatim>\<open>None\<close>, not the count. In the
  concrete exchange two slots are replaced, the debug log says so, and the value returned
  is not 2.
\<close>

theorem share_knowledge_returns_none_counterexample:
  "outcome ex_call \<noteq> Inr (PyInt 2)
   \<and> to_after ex_call = [0, 6, 5]
   \<and> logged ex_call = [Exchanged 2 2]"
  by (simp add: ex_call_run)

text \<open>
  Claim C4, amended. A call that returns does return \<^verbatim>\<open>None\<close>; the number of
  replaced slots is written to the debug log. When the sampler delivers at most
  \<^verbatim>\<open>update_popsize\<close> candidates and pairwise different weakest indices, the logged
  number is between 0 and \<^verbatim>\<open>update_popsize\<close> and is the number of destination slots
  that hold another individual after the call than before.
\<close>

theorem share_knowledge_logs_count:
  assumes sub: "select_subsample (individuals h update_from) update_popsize update_strategy
             ((25 / 100) / real (length update_from)) = (suggested_points, chosen)"
    and quota: "int (length suggested_points) \<le> update_popsize"
    and dW: "distinct (select_weakest_sample (individuals h update_to) update_popsize)"
    and wf: "\<forall>j<length update_to. update_to ! j < length h"
    and ret: "outcome (share_knowledge select_subsample select_weakest_sample h update_from
                update_to update_popsize update_strategy update_threshold only_if_new_best_point)
              = Inr v"
  shows "v = PyNone \<and>
    (\<exists>n. (logged (share_knowledge select_subsample select_weakest_sample h update_from
                update_to update_popsize update_strategy update_threshold only_if_new_best_point)
              = [Exchanged n update_popsize]
           \<or> n = 0 \<and> logged (share_knowledge select_subsample select_weakest_sample h update_from
                update_to update_popsize update_strategy update_threshold only_if_new_best_point)
              = [NoneExchanged update_popsize])
        \<and> int n \<le> update_popsize
        \<and> card {j. j < length update_to \<and>
                   to_after (share_knowledge select_subsample select_weakest_sample h update_from
                     update_to update_popsize update_strategy update_threshold
                     only_if_new_best_point) ! j \<noteq> update_to ! j} = n)"
proof -
  let ?r = "share_knowledge select_subsample select_weakest_sample h update_from
                update_to update_popsize update_strategy update_threshold only_if_new_best_point"
  let ?s0 = "\<lparr>heap = h, to_individuals = update_to, points_exchanged = 0\<rparr>"
  from quota have k0: "0 \<le> update_popsize" by linarith
  from share_knowledge_cases [of select_subsample select_weakest_sample h update_from
      update_to update_popsize update_strategy update_threshold only_if_new_best_point]
  show ?thesis
  proof
    assume A: "heap_after ?r = h \<and> to_after ?r = update_to
            \<and> ((\<exists>e. outcome ?r = Inl e \<and> logged ?r = [])
                 \<or> (outcome ?r = Inr PyNone \<and> logged ?r = [NoneExchanged update_popsize]))"
    with ret have "v = PyNone" "logged ?r = [NoneExchanged update_popsize]"
      "to_after ?r = update_to" by auto
    with k0 show ?thesis by simp
  next
    assume "\<exists>sp C exc s fo.
            select_subsample (individuals h update_from) update_popsize update_strategy
              ((25 / 100) / real (length update_from)) = (sp, C)
          \<and> exchange_loop update_from C (select_weakest_sample (individuals h update_to) update_popsize)
               update_threshold fo (nanpercentile5 (get_fitness h update_to))
               [0..<length sp] ?s0 = (exc, s)
          \<and> heap_after ?r = heap s \<and> to_after ?r = to_individuals s
          \<and> (if only_if_new_best_point then \<exists>t. nanmin (get_fitness h update_to) = Inr t \<and> fo = Some t
              else fo = None)
          \<and> (case exc of Some e \<Rightarrow> outcome ?r = Inl e \<and> logged ?r = []
               | None \<Rightarrow> outcome ?r = Inr PyNone \<and> logged ?r = [Exchanged (points_exchanged s) update_popsize])"
    then obtain sp C exc s fo where
      sp: "select_subsample (individuals h update_from) update_popsize update_strategy
              ((25 / 100) / real (length update_from)) = (sp, C)"
      and loop: "exchange_loop update_from C (select_weakest_sample (individuals h update_to) update_popsize)
               update_threshold fo (nanpercentile5 (get_fitness h update_to))
               [0..<length sp] ?s0 = (exc, s)"
      and after: "to_after ?r = to_individuals s"
      and out: "case exc of Some e \<Rightarrow> outcome ?r = Inl e \<and> logged ?r = []
               | None \<Rightarrow> outcome ?r = Inr PyNone \<and> logged ?r = [Exchanged (points_exchanged s) update_popsize]"
      by blast
    from sp sub have sp_eq: "sp = suggested_points" by simp
    from out ret have v: "v = PyNone" and lg: "logged ?r = [Exchanged (points_exchanged s) update_popsize]"
      by (auto split: option.splits)
    from exchange_loop_count [OF loop] have "int (points_exchanged s) \<le> int (length sp)" by auto
    with quota sp_eq have le: "int (points_exchanged s) \<le> update_popsize" by simp
    have "card {j. j < length (to_individuals ?s0) \<and> to_individuals s ! j \<noteq> to_individuals ?s0 ! j}
           = points_exchanged s"
      by (rule exchange_loop_card [OF loop dW]) (use wf in simp_all)
    with after have "card {j. j < length update_to \<and> to_after ?r ! j \<noteq> update_to ! j}
           = points_exchanged s" by simp
    with v lg le show ?thesis by blast
  qed
qed

theorem share_knowledge_logs_count_witness:
  "outcome ex_call = Inr PyNone
   \<and> logged ex_call = [Exchanged 2 2]
   \<and> card {j. j < length [0, 1, 2::nat] \<and>
        to_after ex_call ! j \<noteq> [0, 1, 2] ! j} = 2"
proof -
  have sub: "ex_select_subsample (individuals ex_store [3, 4]) 2 (6/10, 0, 0, 4/10)
               ((25 / 100) / real (length [3, 4::nat])) = ([[5], [6]], [0, 1])"
    by (simp add: ex_select_subsample_def individuals_def ex_store_def upt_rec numeral_2_eq_2)
  have quota: "int (length [[5], [6::real]]) \<le> 2" by simp
  have dW: "distinct (ex_select_weakest_sample (individuals ex_store [0, 1, 2]) 2)"
    by (simp add: ex_select_weakest_sample_def individuals_def upt_rec numeral_2_eq_2 numeral_3_eq_3)
  have wf: "\<forall>j<length [0, 1, 2::nat]. [0, 1, 2] ! j < length ex_store"
    by (simp add: ex_store_def nth_Cons split: nat.splits)
  have ret: "outcome ex_call = Inr PyNone"
    by (simp add: ex_call_run)
  from share_knowledge_logs_count [OF sub quota dW wf ret [unfolded ex_call_def], folded ex_call_def]
    ret show ?thesis
    by (auto simp: ex_call_run)
qed

subsection \<open>The policy \<^verbatim>\<open>only best\<close>\<close>

text \<open>
  Claim C5, as stated, fails: the threshold is \<^verbatim>\<open>fittest_old\<close>, the best fitness of
  the destination when the call began, not its best fitness when the candidate is decided.
  In the concrete exchange the first candidate (fitness 1) is inserted, the destination's
  best becomes 1, and the second candidate (fitness 5, not below 1) is inserted as well.
\<close>

theorem share_knowledge_only_best_counterexample:
  "exchange_loop [3, 4] [0, 1] [2, 1] ''only best'' (Some (Fin 10)) (Fin 11) [0]
       \<lparr>heap = ex_store, to_individuals = [0, 1, 2], points_exchanged = 0\<rparr>
     = (None, \<lparr>heap = ex_store @ [ex_store ! 3], to_individuals = [0, 1, 5], points_exchanged = 1\<rparr>)
   \<and> nanmin (get_fitness (ex_store @ [ex_store ! 3]) [0, 1, 5]) = Inr (Fin 1)
   \<and> fitness ((ex_store @ [ex_store ! 3]) ! ([3, 4] ! ([0, 1] ! 1))) = Fin 5
   \<and> \<not> fless (Fin 5) (Fin 1)
   \<and> exchange_step [3, 4] [0, 1] [2, 1] ''only best'' (Some (Fin 10)) (Fin 11)
       \<lparr>heap = ex_store @ [ex_store ! 3], to_individuals = [0, 1, 5], points_exchanged = 1\<rparr> 1
     = Inr \<lparr>heap = ex_store @ [ex_store ! 3, ex_store ! 4], to_individuals = [0, 6, 5],
            points_exchanged = 2\<rparr>
   \<and> to_after ex_call = [0, 6, 5]"
  by (simp add: ex_call_run)
     (simp add: ex_store_def nanmin_def get_fitness_def individuals_def exchange_step_def
        threshold_of_def point_already_in_population_def vec_sub_def Let_def)

text \<open>
  Claim C5, amended. Under \<^verbatim>\<open>only best\<close>, every individual that a call writes into a
  destination slot is a new object of the store, and every object that the call creates
  has a fitness strictly below the NaN-aware minimum of the destination fitnesses taken
  at the start of the call. (With the gate disabled no object is created at all.)
\<close>

theorem share_knowledge_only_best_threshold:
  fixes select_subsample select_weakest_sample h update_from update_to update_popsize
    update_strategy only_if_new_best_point
  defines "r \<equiv> share_knowledge select_subsample select_weakest_sample h update_from update_to
                  update_popsize update_strategy ''only best'' only_if_new_best_point"
  shows "(\<forall>a<length h. heap_after r ! a = h ! a)
       \<and> (\<forall>j<length update_to. to_after r ! j \<noteq> update_to ! j \<longrightarrow>
             length h \<le> to_after r ! j \<and> to_after r ! j < length (heap_after r))
       \<and> (\<forall>a. length h \<le> a \<and> a < length (heap_after r) \<longrightarrow>
             (\<exists>t. nanmin (get_fitness h update_to) = Inr t \<and> fless (fitness (heap_after r ! a)) t))"
proof -
  let ?s0 = "\<lparr>heap = h, to_individuals = update_to, points_exchanged = 0\<rparr>"
  have "(heap_after r = h \<and> to_after r = update_to)
      \<or> (\<exists>C W fo g is exc s. exchange_loop update_from C W ''only best'' fo g is ?s0 = (exc, s)
            \<and> heap_after r = heap s \<and> to_after r = to_individuals s
            \<and> (if only_if_new_best_point
                then \<exists>t. nanmin (get_fitness h update_to) = Inr t \<and> fo = Some t else fo = None))"
    using share_knowledge_cases [of select_subsample select_weakest_sample h update_from
      update_to update_popsize update_strategy "''only best''" only_if_new_best_point]
    unfolding r_def by blast
  then show ?thesis
  proof
    assume "heap_after r = h \<and> to_after r = update_to"
    then show ?thesis by auto
  next
    assume "\<exists>C W fo g is exc s. exchange_loop update_from C W ''only best'' fo g is ?s0 = (exc, s)
            \<and> heap_after r = heap s \<and> to_after r = to_individuals s
            \<and> (if only_if_new_best_point
                then \<exists>t. nanmin (get_fitness h update_to) = Inr t \<and> fo = Some t else fo = None)"
    then obtain C W fo g "is" exc s where
      loop: "exchange_loop update_from C W ''only best'' fo g is ?s0 = (exc, s)"
      and hr: "heap_after r = heap s" and tr: "to_after r = to_individuals s"
      and fo: "if only_if_new_best_point
                then \<exists>t. nanmin (get_fitness h update_to) = Inr t \<and> fo = Some t else fo = None"
      by blast
    from exchange_loop_only_best [OF loop] obtain ext where
      ext: "heap s = h @ ext" "\<forall>c\<in>set ext. \<exists>t. fo = Some t \<and> fless (fitness c) t" by auto
    from exchange_loop_slots [OF loop] have
      slots: "\<forall>j<length update_to. to_individuals s ! j = update_to ! j
             \<or> (length h \<le> to_individuals s ! j \<and> to_individuals s ! j < length (heap s))"
      by simp
    have old: "\<forall>a<length h. heap s ! a = h ! a" using ext(1) by (simp add: nth_append)
    have new: "\<forall>a. length h \<le> a \<and> a < length (heap s) \<longrightarrow>
             (\<exists>t. nanmin (get_fitness h update_to) = Inr t \<and> fless (fitness (heap s ! a)) t)"
    proof (intro allI impI)
      fix a assume a: "length h \<le> a \<and> a < length (heap s)"
      with ext(1) have "heap s ! a \<in> set ext" by (auto simp: nth_append)
      with ext(2) obtain t where t: "fo = Some t" "fless (fitness (heap s ! a)) t" by blast
      with fo have "nanmin (get_fitness h update_to) = Inr t" by (auto split: if_splits)
      with t show "\<exists>t. nanmin (get_fitness h update_to) = Inr t \<and> fless (fitness (heap s ! a)) t"
        by blast
    qed
    show ?thesis using old slots new hr tr by auto
  qed
qed

theorem share_knowledge_only_best_threshold_witness:
  "length ex_store \<le> 6
   \<and> 6 < length (heap_after ex_call)
   \<and> nanmin (get_fitness ex_store [0, 1, 2]) = Inr (Fin 10)
   \<and> fless (fitness (heap_after ex_call ! 6)) (Fin 10)"
proof -
  have a: "length ex_store \<le> 6" by (simp add: ex_store_def)
  have b: "6 < length (heap_after ex_call)"
    by (simp add: ex_call_run ex_store_def)
  show ?thesis
    using a b ex_fitness share_knowledge_only_best_threshold [of ex_store
        ex_select_subsample ex_select_weakest_sample "[3, 4]" "[0, 1, 2]" 2 "(6/10, 0, 0, 4/10)" True, folded ex_call_def]
    by auto
qed

subsection \<open>The source population\<close>

text \<open>
  Claim C8. A call changes no object that existed before it, so every individual of the
  source population is as it was; the destination keeps its size; and a slot that was
  replaced holds a new object, which no address of the source refers to, with the
  contents of a source individual. This holds for every outcome of the call, exceptions
  included.
\<close>

theorem share_knowledge_source_untouched:
  fixes select_subsample select_weakest_sample h update_from update_to update_popsize
    update_strategy update_threshold only_if_new_best_point
  defines "r \<equiv> share_knowledge select_subsample select_weakest_sample h update_from update_to
                  update_popsize update_strategy update_threshold only_if_new_best_point"
  assumes wf: "set update_from \<subseteq> {..<length h}"
  shows "(\<forall>a<length h. heap_after r ! a = h ! a)
       \<and> individuals (heap_after r) update_from = individuals h update_from
       \<and> length (to_after r) = length update_to
       \<and> (\<forall>j<length update_to. to_after r ! j \<noteq> update_to ! j \<longrightarrow>
             to_after r ! j \<notin> set update_from
           \<and> heap_after r ! (to_after r ! j) \<in> set (individuals h update_from))"
proof -
  let ?s0 = "\<lparr>heap = h, to_individuals = update_to, points_exchanged = 0\<rparr>"
  have "(heap_after r = h \<and> to_after r = update_to)
      \<or> (\<exists>C W fo g is exc s. exchange_loop update_from C W update_threshold fo g is ?s0 = (exc, s)
            \<and> heap_after r = heap s \<and> to_after r = to_individuals s)"
    using share_knowledge_cases [of select_subsample select_weakest_sample h update_from
      update_to update_popsize update_strategy update_threshold only_if_new_best_point]
    unfolding r_def by blast
  then show ?thesis
  proof
    assume "heap_after r = h \<and> to_after r = update_to"
    then show ?thesis by simp
  next
    assume "\<exists>C W fo g is exc s. exchange_loop update_from C W update_threshold fo g is ?s0 = (exc, s)
            \<and> heap_after r = heap s \<and> to_after r = to_individuals s"
    then obtain C W fo g "is" exc s where
      loop: "exchange_loop update_from C W update_threshold fo g is ?s0 = (exc, s)"
      and hr: "heap_after r = heap s" and tr: "to_after r = to_individuals s" by blast
    from exchange_loop_copies [OF loop] wf obtain ext where
      ext: "heap s = h @ ext" "set ext \<subseteq> (\<lambda>a. h ! a) ` set update_from" by auto
    from exchange_loop_slots [OF loop] have
      len: "length (to_individuals s) = length update_to"
      and slots: "\<forall>j<length update_to. to_individuals s ! j = update_to ! j
             \<or> (length h \<le> to_individuals s ! j \<and> to_individuals s ! j < length (heap s))"
      by simp_all
    have old: "\<forall>a<length h. heap s ! a = h ! a" using ext(1) by (simp add: nth_append)
    have src: "individuals (heap s) update_from = individuals h update_from"
      unfolding individuals_def using wf old by auto
    have new: "\<forall>j<length update_to. to_individuals s ! j \<noteq> update_to ! j \<longrightarrow>
             to_individuals s ! j \<notin> set update_from
           \<and> heap s ! (to_individuals s ! j) \<in> set (individuals h update_from)"
    proof (intro allI impI)
      fix j assume j: "j < length update_to" and ch: "to_individuals s ! j \<noteq> update_to ! j"
      with slots have b: "length h \<le> to_individuals s ! j" "to_individuals s ! j < length (heap s)"
        by auto
      from b(1) wf have "to_individuals s ! j \<notin> set update_from" by auto
      moreover from b ext(1) have "heap s ! (to_individuals s ! j) \<in> set ext"
        by (simp add: nth_append)
      with ext(2) have "heap s ! (to_individuals s ! j) \<in> set (individuals h update_from)"
        unfolding individuals_def by auto
      ultimately show "to_individuals s ! j \<notin> set update_from
           \<and> heap s ! (to_individuals s ! j) \<in> set (individuals h update_from)" by simp
    qed
    show ?thesis using old src len new hr tr by simp
  qed
qed

theorem share_knowledge_source_untouched_witness:
  "set [3, 4] \<subseteq> {..<length ex_store}
   \<and> individuals (heap_after ex_call) [3, 4]
       = individuals ex_store [3, 4]
   \<and> to_after ex_call ! 1 = 6
   \<and> heap_after ex_call ! 6
       \<in> set (individuals ex_store [3, 4])"
proof -
  have wf: "set [3, 4] \<subseteq> {..<length ex_store}" by (simp add: ex_store_def)
  show ?thesis
    using wf share_knowledge_source_untouched [OF wf, of ex_select_subsample
        ex_select_weakest_sample "[0, 1, 2]" 2 "(6/10, 0, 0, 4/10)" "''only best''" True, folded ex_call_def]
    by (simp add: ex_call_run individuals_def ex_store_def)
qed

section \<open>The budget allocator on a concrete input\<close>

text \<open>
  Ten multi-starts, ten parameters, the default \<^verbatim>\<open>local_search_equivalent = 500\<close> and
  the default \<^verbatim>\<open>gradient_eval_equivalent\<close> (the number of parameters). The allocator
  accepts the input. It is evaluated inside the logic, every rounding included.
\<close>

lemma distribute_budget_example:
  "distribute_budget 10 10 500 10 =
     Inr \<lparr>budgets_total = 50000, budgets_global = 20000, budgets_local = 20000,
          budgets_refinement = 10000, budgets_CMAES = 8000, budgets_DiffEvol = 12000,
          budgets_sampling_CMAES = 125, budgets_sampling_DiffEvol = 197, n_refinements = 20,
          popsizes_CMAES = 50, popsizes_DiffEvol = 79, popsizes_initial_refinements = 4,
          popsizes_runtime_refinements = [5, 6, 5], n_iterations_CMAES = 400,
          n_iterations_DiffEvol = 150, n_iterations_global = 400, n_local_searches = 4\<rparr>"
  by code_simp

lemma lb_popsize_example: "lb_popsize_CMAES_of 10 10 = 20"
  by code_simp

text \<open>
  Claim C1 (popsize times iterations is at most the sub-budget) does not hold of the code.
  On the input above the sub-budget of CMAES is 8000, and the allocator resolves the
  population size 50 and 400 iterations, a product of 20000. The second branch of the
  resolution (line 131) stores the lower bound of the iterations, 50, as the population
  size, where the iteration count \<open>floor(8000 / 20)\<close> was computed for the population
  size 20.
\<close>

theorem distribute_budget_exceeds_sub_budget:
  "\<exists>p. distribute_budget 10 10 500 10 = Inr p
       \<and> budgets_CMAES p = 8000 \<and> popsizes_CMAES p = 50 \<and> n_iterations_CMAES p = 400
       \<and> budgets_CMAES p < popsizes_CMAES p * n_iterations_CMAES p"
  by (simp add: distribute_budget_example)

text \<open>
  Claim C2 (the fallback resolves the population size to the heuristic's lower bound of
  the population size) does not hold of the code either, by the same line 131. On the
  input above the lower bound is 20; the attempted population size
  \<open>floor(8000 / 500) - 1 = 15\<close> does not exceed it; \<open>floor(8000 / 20) = 400\<close> clears the
  minimum of 50 iterations; and the allocator resolves 400 iterations, as the claim says,
  but the population size 50, not 20.
\<close>

theorem distribute_budget_fallback_popsize:
  "\<exists>p. distribute_budget 10 10 500 10 = Inr p
       \<and> budgets_CMAES p = 8000
       \<and> lb_popsize_CMAES_of 10 10 = 20
       \<and> \<not> (20 < \<lfloor>(8000::real) / 500\<rfloor> - 1)
       \<and> 50 \<le> \<lfloor>(8000::real) / 20\<rfloor>
       \<and> n_iterations_CMAES p = \<lfloor>(8000::real) / 20\<rfloor>
       \<and> popsizes_CMAES p = 50
       \<and> real_of_int (popsizes_CMAES p) \<noteq> lb_popsize_CMAES_of 10 10"
  by (simp add: distribute_budget_example lb_popsize_example)

section \<open>The call indices of the scheduler\<close>

subsection \<open>One element of the linear spacing\<close>

lemma float_of_int_exact: "\<bar>k\<bar> \<le> 2 ^ 25 \<Longrightarrow> float_of_int k = of_int k"
  unfolding float_of_int_def by (rule fl_of_int) simp

text \<open>
  The element \<open>i\<close> of \<^verbatim>\<open>np.linspace(0, G, n, endpoint=False)\<close> is the double
  \<open>fl (i * fl (G / n))\<close>. For \<open>n \<le> G \<le> 2 ^ 25\<close> it is closer to the exact quotient
  \<open>i * G / n\<close> than \<open>1 / n\<close>.
\<close>

lemma linspace_element:
  assumes G: "0 < n" "n \<le> G" "G \<le> 2 ^ 25" and i: "0 \<le> i" "i < n"
  defines "p \<equiv> fl (real_of_int i * fl (real_of_int G / real_of_int n))"
  shows "0 \<le> p" and "\<bar>p - real_of_int (i * G) / real_of_int n\<bar> < 1 / real_of_int n"
proof -
  define x where "x = real_of_int G / real_of_int n"
  define s where "s = fl x"
  define y where "y = real_of_int i * s"
  define X where "X = real_of_int (i * G) / real_of_int n"
  define d where "d = X / 2 ^ 53"
  have p: "p = fl y" by (simp add: p_def y_def s_def x_def)
  have n0: "0 < real_of_int n" and i0: "0 \<le> real_of_int i" using G i by simp_all
  have x0: "0 < x" using G by (simp add: x_def)
  have XiX: "X = real_of_int i * x" by (simp add: X_def x_def)
  have X0: "0 \<le> X" using G i by (simp add: X_def)
  have d0: "0 \<le> d" using X0 by (simp add: d_def)
  have "real_of_int G \<le> real_of_int (2 ^ 25)" using G(3) by (simp only: of_int_le_iff)
  then have G25: "real_of_int G \<le> 2 ^ 25" by simp
  have "real_of_int n \<le> real_of_int G" using G(2) by (simp only: of_int_le_iff)
  with G25 have n25: "real_of_int n \<le> 2 ^ 25" by simp
  have "X \<le> real_of_int n * x" unfolding XiX using i x0 by (intro mult_right_mono) simp_all
  also have "\<dots> = real_of_int G" using n0 by (simp add: x_def)
  finally have Xle: "X \<le> 2 ^ 25" using G25 by simp
  have dX: "d \<le> X" unfolding d_def using X0 divide_left_mono [of 1 "2 ^ 53" X] by simp
  from fl_error [of x] x0 have sx: "\<bar>s - x\<bar> \<le> x / 2 ^ 53" by (simp add: s_def)
  have "x / 2 ^ 53 \<le> x" using x0 divide_left_mono [of 1 "2 ^ 53" x] by simp
  with sx have s0: "0 \<le> s" by linarith
  have y0: "0 \<le> y" using i0 s0 by (simp add: y_def)
  have "y - X = real_of_int i * (s - x)" by (simp add: y_def XiX algebra_simps)
  then have "\<bar>y - X\<bar> = \<bar>real_of_int i\<bar> * \<bar>s - x\<bar>" by (simp only: abs_mult)
  also have "\<dots> = real_of_int i * \<bar>s - x\<bar>" using i0 by simp
  also have "\<dots> \<le> real_of_int i * (x / 2 ^ 53)" using sx i0 by (rule mult_left_mono)
  also have "\<dots> = d" by (simp add: d_def XiX)
  finally have yX: "\<bar>y - X\<bar> \<le> d" .
  with dX have y2: "\<bar>y\<bar> \<le> 2 * X" by linarith
  from fl_error [of y] have py: "\<bar>p - y\<bar> \<le> \<bar>y\<bar> / 2 ^ 53" by (simp add: p)
  have "\<bar>y\<bar> / 2 ^ 53 \<le> \<bar>y\<bar>" using divide_left_mono [of 1 "2 ^ 53" "\<bar>y\<bar>"] by simp
  with py y0 show "0 \<le> p" by linarith
  from y2 have "\<bar>y\<bar> / 2 ^ 53 \<le> 2 * X / 2 ^ 53" by (rule divide_right_mono) simp
  also have "\<dots> = 2 * d" by (simp add: d_def)
  finally have "\<bar>p - y\<bar> \<le> 2 * d" using py by linarith
  with yX have "\<bar>p - X\<bar> \<le> 3 * d" by linarith
  also have "d \<le> 2 ^ 25 / 2 ^ 53" unfolding d_def using Xle by (rule divide_right_mono) simp
  also have "3 * ((2::real) ^ 25 / 2 ^ 53) < 1 / 2 ^ 25" by simp
  also have "1 / (2::real) ^ 25 \<le> 1 / real_of_int n"
    using n25 n0 by (intro divide_left_mono) simp_all
  finally show "\<bar>p - real_of_int (i * G) / real_of_int n\<bar> < 1 / real_of_int n"
    by (simp add: X_def)
qed

lemma calls_to_nth:
  assumes "0 < n" "n \<le> G" "G \<le> 2 ^ 25" "0 \<le> i" "i < n"
  shows "\<exists>calls. calls_to G n = Inr calls \<and> length calls = nat n
       \<and> calls ! nat i = int_of_float (fl (real_of_int i * fl (real_of_int G / real_of_int n)))"
proof -
  have fi: "float_of_int i = of_int i" and fn: "float_of_int n = of_int n"
    and fG: "float_of_int G = of_int G"
    using assms by (auto intro!: float_of_int_exact)
  have idx: "[0..n - 1] ! nat i = i" using assms by (simp add: nth_upto)
  have len: "length [0..n - 1] = nat n" using assms by simp
  have "nat i < length [0..n - 1]" using assms len by simp
  then have "map (\<lambda>j. fl (float_of_int j * fl (float_of_int G / float_of_int n))) [0..n - 1] ! nat i
      = fl (float_of_int i * fl (float_of_int G / float_of_int n))"
    by (simp add: idx)
  with assms len fi fn fG show ?thesis
    by (simp add: calls_to_def linspace0_def Let_def)
qed

lemma calls_to_example: "calls_to 5 3 = Inr [0, 1, 3]"
  by code_simp

lemma linspace_element_below:
  "int_of_float (fl (real_of_int 11 * fl (real_of_int 30 / real_of_int 22))) = 14"
  by code_simp

subsection \<open>Claim C3\<close>




subsection \<open>The calendar on a small input\<close>

text \<open>
  Ten outer iterations, four iterations of CMAES and ten of DiffEvol: CMAES is called at
  the indices 0, 2, 5 and 7, the initial refinement at \<open>round (0.5) = 0\<close> and the runtime
  refinements at 3, 5 and 7.
\<close>

lemma schedule_iterations_example:
  "schedule_iterations 10 4 10 =
     Inr [[''CMAES'', ''DiffEvol'', ''InitialRefine''], [''DiffEvol''], [''CMAES'', ''DiffEvol''],
          [''DiffEvol'', ''RuntimeRefine''], [''DiffEvol''], [''CMAES'', ''DiffEvol'', ''RuntimeRefine''],
          [''DiffEvol''], [''CMAES'', ''DiffEvol'', ''RuntimeRefine''], [''DiffEvol''], [''DiffEvol'']]"
  by code_simp

section \<open>The ranking of the final search\<close>

lemma argsort_set: "set (argsort a) = {..<length a}"
  by (auto simp: argsort_def)

lemma argsort_mset: "mset (map (\<lambda>i. xs ! i) (argsort (map f xs))) = mset xs"
proof -
  have "mset (map (\<lambda>i. xs ! i) (argsort (map f xs))) = image_mset (\<lambda>i. xs ! i) (mset [0..<length xs])"
    by (simp add: argsort_def)
  also have "\<dots> = mset (map (\<lambda>i. xs ! i) [0..<length xs])" by simp
  also have "\<dots> = mset xs" by (simp add: map_nth)
  finally show ?thesis .
qed

lemma argsort_sorted:
  "sorted (map (\<lambda>r. sort_rank (f r)) (map (\<lambda>i. xs ! i) (argsort (map f xs))))"
proof -
  have "map (\<lambda>r. sort_rank (f r)) (map (\<lambda>i. xs ! i) (argsort (map f xs)))
      = map (\<lambda>i. sort_rank (map f xs ! i)) (argsort (map f xs))"
    using argsort_set [of "map f xs"] by (auto simp: subset_iff)
  also have "sorted \<dots>" unfolding argsort_def by (rule sorted_sort_key)
  finally show ?thesis .
qed

text \<open>
  Claim C9. The final stage appends to \<^verbatim>\<open>self.final_results\<close> (empty after the
  constructor) the results of its local searches, each result whole, that is with its own
  parameter vector, in ascending order of the objective value, NaN values last.
\<close>

theorem perform_final_search_ranked:
  "\<exists>ranked. perform_final_search rescale_to_bounds minimize final_search_points self_final_results
              = self_final_results @ ranked
     \<and> mset ranked = mset (run_final_searches rescale_to_bounds minimize final_search_points)
     \<and> sorted (map (\<lambda>r. sort_rank (res_fval r)) ranked)"
  unfolding perform_final_search_def Let_def
  using argsort_mset argsort_sorted by blast

text \<open>
  The example of the specification: the local searches started from three points end with
  the objective values 3, 1 and 2; the ranked list has the values 1, 2 and 3, each with the
  parameter vector (30, 10 and 20) of its own search.
\<close>

theorem perform_final_search_ranked_witness:
  "map res_fval (run_final_searches (\<lambda>p. p) (\<lambda>x0 id. \<lparr>res_x = x0, res_fval = Fin (hd x0 / 10)\<rparr>)
      [[30], [10], [20]]) = [Fin 3, Fin 1, Fin 2]
   \<and> perform_final_search (\<lambda>p. p) (\<lambda>x0 id. \<lparr>res_x = x0, res_fval = Fin (hd x0 / 10)\<rparr>)
      [[30], [10], [20]] []
   = [\<lparr>res_x = [10], res_fval = Fin 1\<rparr>, \<lparr>res_x = [20], res_fval = Fin 2\<rparr>,
      \<lparr>res_x = [30], res_fval = Fin 3\<rparr>]"
  using perform_final_search_ranked [of "\<lambda>p. p" "\<lambda>x0 id. \<lparr>res_x = x0, res_fval = Fin (hd x0 / 10)\<rparr>"
      "[[30], [10], [20]]" "[]"]
  by (simp add: perform_final_search_def run_final_searches_def argsort_def upt_rec
        numeral_3_eq_3)

end
